theory Spec2Isabelle
  imports Complex_Main
begin

section \<open>GCN with SPMV optimisation: a shallow embedding of \<^verbatim>\<open>examples/mxnet/gcn/gcn_spmv.py\<close>\<close>

text \<open>
  The script is glue over two libraries. What the script itself does (the order of the
  operations of a layer, the chain of layers, the normalisation coefficients, the
  training loop and its log, the final accuracy, the command line) is translated from
  the source. Tensors are lists of rows of float values. A float value is a real number,
  an infinity or \<^verbatim>\<open>nan\<close>, with the arithmetic of IEEE 754 on the non-finite values;
  rounding and overflow of the finite values are not part of the model.
\<close>

subsection \<open>Errors\<close>

datatype error =
    InvalidChoice string
  | KeyError string
  | ShapeError
  | IndexError
  | DGLError

text \<open>A raised exception ends the computation: the rest runs only on a result.\<close>

definition and_then :: "error + 'a \<Rightarrow> ('a \<Rightarrow> error + 'b) \<Rightarrow> error + 'b" where
  "and_then m f = (case m of Inl e \<Rightarrow> Inl e | Inr x \<Rightarrow> f x)"

subsection \<open>Command line\<close>

text \<open>
  \<^verbatim>\<open>parser.add_argument("--normalization", choices=['sym','left'], default=None, ...)\<close>

  The flag takes one value. A value that is not among the choices ends the program with
  an "invalid choice" error; a command line without the flag leaves the default, Python's
  \<^verbatim>\<open>None\<close>.
\<close>

definition normalization_choices :: "string list" where
  "normalization_choices = [''sym'', ''left'']"

definition check_value :: "string list \<Rightarrow> string \<Rightarrow> error + string" where
  "check_value choices v = (if v \<in> set choices then Inr v else Inl (InvalidChoice v))"

definition parse_normalization :: "string option \<Rightarrow> error + string option" where
  "parse_normalization given =
     (case given of
        None \<Rightarrow> Inr None
      | Some v \<Rightarrow> and_then (check_value normalization_choices v) (\<lambda>v'. Inr (Some v')))"

subsection \<open>Float values\<close>

text \<open>
  The entries of the tensors. No operation on them raises: a sum of opposite infinities,
  a product of zero and an infinity, a quotient of two zeros or of two infinities is
  \<^verbatim>\<open>nan\<close>, and \<^verbatim>\<open>nan\<close> propagates.
\<close>

datatype fl = Finite real | PosInf | NegInf | NaN

fun fl_plus :: "fl \<Rightarrow> fl \<Rightarrow> fl" where
  "fl_plus (Finite a) (Finite b) = Finite (a + b)"
| "fl_plus NaN y = NaN"
| "fl_plus x NaN = NaN"
| "fl_plus PosInf NegInf = NaN"
| "fl_plus NegInf PosInf = NaN"
| "fl_plus PosInf y = PosInf"
| "fl_plus x PosInf = PosInf"
| "fl_plus NegInf y = NegInf"
| "fl_plus x NegInf = NegInf"

fun fl_uminus :: "fl \<Rightarrow> fl" where
  "fl_uminus (Finite a) = Finite (- a)"
| "fl_uminus PosInf = NegInf"
| "fl_uminus NegInf = PosInf"
| "fl_uminus NaN = NaN"

fun signed_inf :: "bool \<Rightarrow> fl" where
  "signed_inf True = PosInf"
| "signed_inf False = NegInf"

fun fl_times :: "fl \<Rightarrow> fl \<Rightarrow> fl" where
  "fl_times (Finite a) (Finite b) = Finite (a * b)"
| "fl_times NaN y = NaN"
| "fl_times x NaN = NaN"
| "fl_times (Finite a) PosInf = (if a = 0 then NaN else signed_inf (0 < a))"
| "fl_times (Finite a) NegInf = (if a = 0 then NaN else signed_inf (a < 0))"
| "fl_times PosInf (Finite b) = (if b = 0 then NaN else signed_inf (0 < b))"
| "fl_times NegInf (Finite b) = (if b = 0 then NaN else signed_inf (b < 0))"
| "fl_times PosInf PosInf = PosInf"
| "fl_times PosInf NegInf = NegInf"
| "fl_times NegInf PosInf = NegInf"
| "fl_times NegInf NegInf = PosInf"

fun fl_divide :: "fl \<Rightarrow> fl \<Rightarrow> fl" where
  "fl_divide (Finite a) (Finite b) =
     (if b = 0 then (if a = 0 then NaN else signed_inf (0 < a)) else Finite (a / b))"
| "fl_divide NaN y = NaN"
| "fl_divide x NaN = NaN"
| "fl_divide (Finite a) y = Finite 0"
| "fl_divide PosInf (Finite b) = signed_inf (0 \<le> b)"
| "fl_divide NegInf (Finite b) = signed_inf (b < 0)"
| "fl_divide x y = NaN"

fun fl_exp :: "fl \<Rightarrow> fl" where
  "fl_exp (Finite a) = Finite (exp a)"
| "fl_exp PosInf = PosInf"
| "fl_exp NegInf = Finite 0"
| "fl_exp NaN = NaN"

fun fl_less :: "fl \<Rightarrow> fl \<Rightarrow> bool" where
  "fl_less NaN y = False"
| "fl_less x NaN = False"
| "fl_less (Finite a) (Finite b) = (a < b)"
| "fl_less x PosInf = (x \<noteq> PosInf)"
| "fl_less NegInf y = (y \<noteq> NegInf)"
| "fl_less x y = False"

instantiation fl :: comm_monoid_add
begin

definition zero_fl :: fl where
  "zero_fl = Finite 0"

definition plus_fl :: "fl \<Rightarrow> fl \<Rightarrow> fl" where
  "plus_fl a b = fl_plus a b"

instance
proof
  fix a b c :: fl
  show "a + b + c = a + (b + c)"
    by (cases a; cases b; cases c) (simp_all add: plus_fl_def)
  show "a + b = b + a"
    by (cases a; cases b) (simp_all add: plus_fl_def)
  show "0 + a = a"
    by (cases a) (simp_all add: plus_fl_def zero_fl_def)
qed

end

instantiation fl :: "{times, uminus, minus, inverse}"
begin

definition times_fl :: "fl \<Rightarrow> fl \<Rightarrow> fl" where
  "times_fl a b = fl_times a b"

definition uminus_fl :: "fl \<Rightarrow> fl" where
  "uminus_fl a = fl_uminus a"

definition minus_fl :: "fl \<Rightarrow> fl \<Rightarrow> fl" where
  "minus_fl a b = fl_plus a (fl_uminus b)"

definition divide_fl :: "fl \<Rightarrow> fl \<Rightarrow> fl" where
  "divide_fl a b = fl_divide a b"

definition inverse_fl :: "fl \<Rightarrow> fl" where
  "inverse_fl a = fl_divide (Finite 1) a"

instance ..

end

text \<open>\<^verbatim>\<open>max(x, 0)\<close> on a float value.\<close>

fun fl_relu :: "fl \<Rightarrow> fl" where
  "fl_relu (Finite a) = Finite (max 0 a)"
| "fl_relu PosInf = PosInf"
| "fl_relu NegInf = Finite 0"
| "fl_relu NaN = NaN"

definition fl_max :: "fl \<Rightarrow> fl \<Rightarrow> fl" where
  "fl_max a b = (if fl_less a b then b else a)"

subsection \<open>Tensors\<close>

type_synonym vec = "fl list"
type_synonym matrix = "fl list list"

text \<open>Every row of the matrix has \<open>w\<close> entries.\<close>

definition width_is :: "nat \<Rightarrow> matrix \<Rightarrow> bool" where
  "width_is w h = list_all (\<lambda>row. length row = w) h"

text \<open>
  \<^verbatim>\<open>a * b\<close> on two 2-D arrays broadcasts: an axis of length 1 is stretched to the
  other operand's length, any other mismatch is a shape error.
\<close>

definition mul_row :: "vec \<Rightarrow> vec \<Rightarrow> error + vec" where
  "mul_row a b =
     (if length a = length b then Inr (map2 (*) a b)
      else if length b = 1 then Inr (map (\<lambda>x. x * hd b) a)
      else if length a = 1 then Inr (map (\<lambda>y. hd a * y) b)
      else Inl ShapeError)"

fun collect :: "(error + 'a) list \<Rightarrow> error + 'a list" where
  "collect [] = Inr []"
| "collect (Inl e # rs) = Inl e"
| "collect (Inr x # rs) = (case collect rs of Inl e \<Rightarrow> Inl e | Inr xs \<Rightarrow> Inr (x # xs))"

definition mul :: "matrix \<Rightarrow> matrix \<Rightarrow> error + matrix" where
  "mul a b =
     (if length a = length b then collect (map2 mul_row a b)
      else if length b = 1 then collect (map (\<lambda>r. mul_row r (hd b)) a)
      else if length a = 1 then collect (map (\<lambda>r. mul_row (hd a) r) b)
      else Inl ShapeError)"

text \<open>\<^verbatim>\<open>mx.nd.relu\<close>: the positive part, entry by entry.\<close>

definition relu :: "matrix \<Rightarrow> matrix" where
  "relu h = map (map fl_relu) h"

subsection \<open>The dense transform of a layer\<close>

text \<open>
  \<^verbatim>\<open>gluon.nn.Dense(out_feats, use_bias=bias)\<close> holds the number of output units; its
  weight (one row per unit) and bias are parameters that the trainer updates, so they
  are passed beside the layer. A row \<open>x\<close> goes to \<open>W x + b\<close>.
\<close>

record Dense =
  units :: nat
  use_bias :: bool

type_synonym dense_params = "matrix \<times> vec"

definition dot :: "vec \<Rightarrow> vec \<Rightarrow> fl" where
  "dot x w = sum_list (map2 (*) x w)"

definition Dense_forward :: "Dense \<Rightarrow> dense_params \<Rightarrow> matrix \<Rightarrow> error + matrix" where
  "Dense_forward d p h =
     (case p of (W, b) \<Rightarrow>
        if length W \<noteq> units d \<or> (use_bias d \<and> length b \<noteq> units d)
           \<or> list_ex (\<lambda>row. list_ex (\<lambda>w. length w \<noteq> length row) W) h
        then Inl ShapeError
        else if use_bias d
          then Inr (map (\<lambda>row. map (\<lambda>(w, c). dot row w + c) (zip W b)) h)
          else Inr (map (\<lambda>row. map (\<lambda>w. dot row w) W) h))"

subsection \<open>The graph and its node data\<close>

text \<open>
  A \<^verbatim>\<open>DGLGraph\<close>: nodes \<open>0 ..< n_nodes\<close>, directed edges (source, destination) and
  the node-data store \<^verbatim>\<open>g.ndata\<close>, a dictionary from field names to matrices. All
  layers of a model hold the same graph object, so the store is threaded through
  every call.
\<close>

record DGLGraph =
  n_nodes :: nat
  edges :: "(nat \<times> nat) list"
  ndata :: "string \<rightharpoonup> matrix"

definition wf_graph :: "DGLGraph \<Rightarrow> bool" where
  "wf_graph g = list_all (\<lambda>(u, v). u < n_nodes g \<and> v < n_nodes g) (edges g)"

text \<open>
  Modelled from the spec: \<^verbatim>\<open>g.ndata[k] = x\<close> (the node frame of the graph library,
  not among the sources). A field holds one row per node.
\<close>

definition ndata_set :: "DGLGraph \<Rightarrow> string \<Rightarrow> matrix \<Rightarrow> error + DGLGraph" where
  "ndata_set g k x =
     (if length x = n_nodes g then Inr (g\<lparr>ndata := (ndata g)(k \<mapsto> x)\<rparr>) else Inl DGLError)"

definition ndata_get :: "DGLGraph \<Rightarrow> string \<Rightarrow> error + matrix" where
  "ndata_get g k = (case ndata g k of None \<Rightarrow> Inl (KeyError k) | Some x \<Rightarrow> Inr x)"

definition ndata_pop :: "DGLGraph \<Rightarrow> string \<Rightarrow> error + (matrix \<times> DGLGraph)" where
  "ndata_pop g k =
     (case ndata g k of
        None \<Rightarrow> Inl (KeyError k)
      | Some x \<Rightarrow> Inr (x, g\<lparr>ndata := (ndata g)(k := None)\<rparr>))"

text \<open>
  Modelled from the spec: \<^verbatim>\<open>g.update_all(fn.copy_src(src, out='m'), fn.sum(msg='m', out))\<close>
  (the message passing of the graph library, not among the sources). The spec, 4.1:
  "propagate by summing each node's feature vector into every destination node it has an
  edge toward". Every destination starts from the zero vector; each edge adds its
  source's row to its destination's row.
\<close>

definition vadd :: "vec \<Rightarrow> vec \<Rightarrow> vec" where
  "vadd a b = map2 (+) a b"

fun sum_into :: "matrix \<Rightarrow> (nat \<times> nat) list \<Rightarrow> matrix \<Rightarrow> matrix" where
  "sum_into x [] acc = acc"
| "sum_into x ((u, v) # es) acc = sum_into x es (acc[v := vadd (acc ! v) (x ! u)])"

definition feat_width :: "matrix \<Rightarrow> nat" where
  "feat_width x = (case x of [] \<Rightarrow> 0 | row # _ \<Rightarrow> length row)"

definition update_all_copy_src_sum :: "string \<Rightarrow> string \<Rightarrow> DGLGraph \<Rightarrow> error + DGLGraph" where
  "update_all_copy_src_sum src out g =
     (case ndata g src of
        None \<Rightarrow> Inl (KeyError src)
      | Some x \<Rightarrow>
          Inr (g\<lparr>ndata := (ndata g)(out \<mapsto>
                 sum_into x (edges g) (replicate (n_nodes g) (replicate (feat_width x) 0)))\<rparr>))"

subsection \<open>GCNLayer\<close>

text \<open>
  \<^verbatim>\<open>GCNLayer.__init__(self, g, in_feats, out_feats, activation, dropout, bias=True)\<close>
  keeps the graph, a dense transform of \<open>out_feats\<close> units, the activation and the
  dropout rate. It does not keep \<open>in_feats\<close>. The graph is shared by reference and is
  passed to \<open>forward\<close> as the state.
\<close>

record GCNLayer =
  dense :: Dense
  activation :: "(matrix \<Rightarrow> matrix) option"
  dropout :: real

record layer_args =
  arg_in_feats :: nat
  arg_out_feats :: nat
  arg_activation :: "(matrix \<Rightarrow> matrix) option"
  arg_dropout :: real
  arg_bias :: bool

definition GCNLayer_init :: "layer_args \<Rightarrow> GCNLayer" where
  "GCNLayer_init a =
     \<lparr>dense = \<lparr>units = arg_out_feats a, use_bias = arg_bias a\<rparr>,
      activation = arg_activation a,
      dropout = arg_dropout a\<rparr>"

text \<open>
  \<^verbatim>\<open>GCNLayer.forward(self, h)\<close>. \<open>dropf\<close> is \<^verbatim>\<open>mx.nd.Dropout\<close> as it acts in this
  call (its mode and its random draw fixed); \<open>p\<close> are the current parameters of
  \<^verbatim>\<open>self.dense\<close>.
\<close>

definition GCNLayer_forward ::
  "(real \<Rightarrow> matrix \<Rightarrow> matrix) \<Rightarrow> GCNLayer \<Rightarrow> dense_params \<Rightarrow> DGLGraph \<Rightarrow> matrix
     \<Rightarrow> error + (matrix \<times> DGLGraph)" where
  "GCNLayer_forward dropf l p g h =
     (let h1 = (if dropout l \<noteq> 0 then dropf (dropout l) h else h) in
      and_then (Dense_forward (dense l) p h1) (\<lambda>h2.
      and_then (ndata_get g ''norm'') (\<lambda>nrm.
      and_then (mul h2 nrm) (\<lambda>h3.
      and_then (ndata_set g ''h'' h3) (\<lambda>g1.
      and_then (update_all_copy_src_sum ''h'' ''h'' g1) (\<lambda>g2.
      and_then (ndata_pop g2 ''h'') (\<lambda>(h4, g3).
      and_then (ndata_get g3 ''norm'') (\<lambda>nrm'.
      and_then (mul h4 nrm') (\<lambda>h5.
      Inr (case activation l of None \<Rightarrow> h5 | Some act \<Rightarrow> act h5, g3))))))))))"

subsection \<open>GCN\<close>

text \<open>
  \<^verbatim>\<open>GCN.__init__\<close> adds to \<^verbatim>\<open>self.layers\<close>, in this order, an input layer,
  \<^verbatim>\<open>range(n_layers - 1)\<close> hidden layers and an output layer. \<open>GCN_calls\<close> is the list
  of the constructor calls it makes, \<open>GCN_init\<close> the list of layers they build. The
  argument \<open>normalization\<close> is received and not used.
\<close>

definition GCN_calls ::
  "nat \<Rightarrow> nat \<Rightarrow> nat \<Rightarrow> int \<Rightarrow> (matrix \<Rightarrow> matrix) option \<Rightarrow> real \<Rightarrow> string option
     \<Rightarrow> layer_args list" where
  "GCN_calls in_feats n_hidden n_classes n_layers act p normalization =
     [\<lparr>arg_in_feats = in_feats, arg_out_feats = n_hidden, arg_activation = act,
       arg_dropout = p, arg_bias = True\<rparr>]
     @ replicate (nat (n_layers - 1))
         \<lparr>arg_in_feats = n_hidden, arg_out_feats = n_hidden, arg_activation = act,
          arg_dropout = p, arg_bias = True\<rparr>
     @ [\<lparr>arg_in_feats = n_hidden, arg_out_feats = n_classes, arg_activation = None,
         arg_dropout = p, arg_bias = True\<rparr>]"

definition GCN_init ::
  "nat \<Rightarrow> nat \<Rightarrow> nat \<Rightarrow> int \<Rightarrow> (matrix \<Rightarrow> matrix) option \<Rightarrow> real \<Rightarrow> string option
     \<Rightarrow> GCNLayer list" where
  "GCN_init in_feats n_hidden n_classes n_layers act p normalization =
     map GCNLayer_init (GCN_calls in_feats n_hidden n_classes n_layers act p normalization)"

text \<open>
  \<^verbatim>\<open>GCN.forward\<close>: the layers in order, each on the output of the one before. \<open>dropf\<close>
  gives the dropout of each layer call by the layer's position; \<open>ps\<close> holds the
  parameters of the layers, in the same order.
\<close>

fun GCN_forward_from ::
  "nat \<Rightarrow> (nat \<Rightarrow> real \<Rightarrow> matrix \<Rightarrow> matrix) \<Rightarrow> GCNLayer list \<Rightarrow> dense_params list
     \<Rightarrow> DGLGraph \<Rightarrow> matrix \<Rightarrow> error + (matrix \<times> DGLGraph)" where
  "GCN_forward_from i dropf [] ps g h = Inr (h, g)"
| "GCN_forward_from i dropf (l # ls) [] g h = Inl ShapeError"
| "GCN_forward_from i dropf (l # ls) (p # ps) g h =
     and_then (GCNLayer_forward (dropf i) l p g h)
       (\<lambda>(h', g'). GCN_forward_from (Suc i) dropf ls ps g' h')"

definition GCN_forward ::
  "(nat \<Rightarrow> real \<Rightarrow> matrix \<Rightarrow> matrix) \<Rightarrow> GCNLayer list \<Rightarrow> dense_params list
     \<Rightarrow> DGLGraph \<Rightarrow> matrix \<Rightarrow> error + (matrix \<times> DGLGraph)" where
  "GCN_forward dropf ls ps g features = GCN_forward_from 0 dropf ls ps g features"

subsection \<open>Normalisation coefficients\<close>

text \<open>
  Modelled from the spec: \<^verbatim>\<open>g.in_degrees()\<close> (the graph library, not among the
  sources): for each node, the number of edges that end in it.
\<close>

definition in_degree :: "DGLGraph \<Rightarrow> nat \<Rightarrow> nat" where
  "in_degree g v = length (filter (\<lambda>(u, v'). v' = v) (edges g))"

definition in_degrees :: "DGLGraph \<Rightarrow> nat list" where
  "in_degrees g = map (in_degree g) [0..<n_nodes g]"

text \<open>
  \<^verbatim>\<open>mx.nd.power(degs, -0.5)\<close> on a degree: a positive degree gives its inverse square
  root, the degree zero gives the float \<^verbatim>\<open>inf\<close> (HOL's \<open>0 powr x\<close> is \<open>0\<close>, so the
  case is written out).
\<close>

definition power_neg_half :: "nat \<Rightarrow> fl" where
  "power_neg_half d = (if d = 0 then PosInf else Finite (real d powr (- 1 / 2)))"

definition norm_coefs :: "DGLGraph \<Rightarrow> fl list" where
  "norm_coefs g = map power_neg_half (in_degrees g)"

fun is_finite :: "fl \<Rightarrow> bool" where
  "is_finite (Finite x) = True"
| "is_finite other = False"

fun non_negative :: "fl \<Rightarrow> bool" where
  "non_negative (Finite x) = (0 \<le> x)"
| "non_negative PosInf = True"
| "non_negative other = False"

text \<open>A node is isolated when no edge starts or ends in it.\<close>

definition isolated :: "DGLGraph \<Rightarrow> nat \<Rightarrow> bool" where
  "isolated g v = list_all (\<lambda>(a, b). a \<noteq> v \<and> b \<noteq> v) (edges g)"

definition no_isolated_nodes :: "DGLGraph \<Rightarrow> bool" where
  "no_isolated_nodes g = list_all (\<lambda>v. \<not> isolated g v) [0..<n_nodes g]"

text \<open>
  \<^verbatim>\<open>g.ndata['norm'] = mx.nd.expand_dims(norm, 1)\<close>: the vector becomes a column. Nothing
  checks the coefficients: an infinite one is stored like the others.
\<close>

definition expand_dims_1 :: "vec \<Rightarrow> matrix" where
  "expand_dims_1 v = map (\<lambda>x. [x]) v"

definition set_norm :: "DGLGraph \<Rightarrow> error + DGLGraph" where
  "set_norm g = ndata_set g ''norm'' (expand_dims_1 (norm_coefs g))"

subsection \<open>The final accuracy\<close>

text \<open>
  \<^verbatim>\<open>(pred*100).softmax().pick(labels).mean()\<close>: the softmax runs along each row and
  subtracts the row's maximum before the exponential, \<open>pick\<close> takes from each row the
  entry at the node's label (an index out of range is clipped to the row), \<open>mean\<close>
  averages all entries; the mean of no entries is \<^verbatim>\<open>nan\<close>. No mask takes part.
\<close>

definition scale_by :: "fl \<Rightarrow> matrix \<Rightarrow> matrix" where
  "scale_by c h = map (map (\<lambda>x. x * c)) h"

definition row_max :: "vec \<Rightarrow> fl" where
  "row_max row = (case row of [] \<Rightarrow> NegInf | x # xs \<Rightarrow> fold fl_max xs x)"

definition softmax_row :: "vec \<Rightarrow> vec" where
  "softmax_row row =
     (let e = map (\<lambda>x. fl_exp (x - row_max row)) row
      in map (\<lambda>y. y / sum_list e) e)"

definition softmax :: "matrix \<Rightarrow> matrix" where
  "softmax h = map softmax_row h"

definition clip_index :: "nat \<Rightarrow> int \<Rightarrow> nat" where
  "clip_index n i = nat (max 0 (min i (int n - 1)))"

definition pick_row :: "vec \<Rightarrow> int \<Rightarrow> error + fl" where
  "pick_row row i = (if row = [] then Inl IndexError else Inr (row ! clip_index (length row) i))"

definition pick :: "matrix \<Rightarrow> int list \<Rightarrow> error + vec" where
  "pick h index =
     (if length h \<noteq> length index then Inl ShapeError else collect (map2 pick_row h index))"

definition mean :: "vec \<Rightarrow> fl" where
  "mean v = sum_list v / Finite (real (length v))"

definition accuracy :: "matrix \<Rightarrow> int list \<Rightarrow> error + fl" where
  "accuracy pred labels =
     and_then (pick (softmax (scale_by (Finite 100) pred)) labels) (\<lambda>picked.
     Inr (mean [mean picked]))"

subsection \<open>What the libraries supply\<close>

text \<open>
  The script calls the tensor library for the random dropout, the initial parameters,
  the loss, the gradients and the optimiser, and the system clock for the timing. They
  are parameters of the model:
  \<^item> \<open>Dropout\<close>: \<^verbatim>\<open>mx.nd.Dropout\<close> in a given forward pass (which fixes the mode and
    the random draws) at a given layer position;
  \<^item> \<open>initialize\<close>: the parameters that \<^verbatim>\<open>model.initialize(ctx)\<close> gives the layers
    for inputs of the given width;
  \<^item> \<open>loss_fcn\<close>: \<^verbatim>\<open>gluon.loss.SoftmaxCELoss()\<close> called on the predictions, the labels
    and the mask;
  \<^item> \<open>Trainer\<close>: the state of a fresh \<^verbatim>\<open>gluon.Trainer(..., 'adam', ...)\<close> for a
    learning rate and a weight decay;
  \<^item> \<open>backward_step\<close>: \<^verbatim>\<open>loss.backward()\<close> and \<^verbatim>\<open>trainer.step(batch_size)\<close>: from the
    optimiser state, the recorded computation (the loss as a function of the
    parameters), the current parameters and the batch size, the new state and parameters;
  \<^item> \<open>time\<close>: the value of the \<open>k\<close>-th call of \<^verbatim>\<open>time.time()\<close>.
\<close>

datatype pass = TrainPass nat | EvalPass

record 'o ext =
  Dropout :: "pass \<Rightarrow> nat \<Rightarrow> real \<Rightarrow> matrix \<Rightarrow> matrix"
  initialize :: "GCNLayer list \<Rightarrow> nat \<Rightarrow> dense_params list"
  loss_fcn :: "matrix \<Rightarrow> int list \<Rightarrow> vec \<Rightarrow> error + vec"
  Trainer :: "real \<Rightarrow> real \<Rightarrow> 'o"
  backward_step ::
    "'o \<Rightarrow> (dense_params list \<Rightarrow> error + vec) \<Rightarrow> dense_params list \<Rightarrow> nat
       \<Rightarrow> 'o \<times> dense_params list"
  time :: "nat \<Rightarrow> real"

subsection \<open>The arguments and the dataset\<close>

record args =
  args_dropout :: real
  args_gpu :: int
  args_lr :: real
  args_n_epochs :: int
  args_n_hidden :: nat
  args_n_layers :: int
  args_normalization :: "string option"
  args_self_loop :: bool
  args_weight_decay :: real

text \<open>
  What \<^verbatim>\<open>load_data(args)\<close> returns. \<open>graph\<close> is \<^verbatim>\<open>data.graph\<close> as the directed
  graph on the nodes \<open>0 ..< graph_nodes\<close> that \<^verbatim>\<open>DGLGraph(data.graph)\<close> is built from.
\<close>

record dataset =
  graph_nodes :: nat
  graph :: "(nat \<times> nat) list"
  features :: matrix
  labels :: "int list"
  train_mask :: vec
  num_labels :: nat

text \<open>\<^verbatim>\<open>add_edges_from\<close>: an edge that the graph already has is not added again.\<close>

fun add_edges_from :: "(nat \<times> nat) list \<Rightarrow> (nat \<times> nat) list \<Rightarrow> (nat \<times> nat) list" where
  "add_edges_from es [] = es"
| "add_edges_from es (e # new) =
     add_edges_from (if e \<in> set es then es else es @ [e]) new"

definition self_loops :: "nat \<Rightarrow> (nat \<times> nat) list" where
  "self_loops n = map (\<lambda>i. (i, i)) [0..<n]"

subsection \<open>The training loop\<close>

datatype line =
    EdgesLine nat nat
  | ParamsLine
  | EpochLine nat fl real "real option"
  | AccuracyLine fl

record 'o train_state =
  params :: "dense_params list"
  opt :: 'o
  g_state :: DGLGraph
  dur :: "real list"
  clock :: nat
  stdout :: "line list"

text \<open>\<^verbatim>\<open>loss.asnumpy()[0]\<close>.\<close>

definition first :: "vec \<Rightarrow> error + fl" where
  "first v = (case v of [] \<Rightarrow> Inl IndexError | x # _ \<Rightarrow> Inr x)"

text \<open>\<^verbatim>\<open>np.mean(dur)\<close> of a list that holds at least the duration just appended.\<close>

definition np_mean :: "real list \<Rightarrow> real" where
  "np_mean xs = sum_list xs / real (length xs)"

text \<open>
  \<^verbatim>\<open>n_edges / np.mean(dur) / 1000\<close>; a mean of zero gives a non-finite float
  (\<open>None\<close>) and no exception.
\<close>

definition kteps :: "nat \<Rightarrow> real \<Rightarrow> real option" where
  "kteps n_edges m = (if m = 0 then None else Some (real n_edges / m / 1000))"

text \<open>One iteration of \<^verbatim>\<open>for epoch in range(args.n_epochs)\<close>.\<close>

definition recorded ::
  "'o ext \<Rightarrow> dataset \<Rightarrow> GCNLayer list \<Rightarrow> DGLGraph \<Rightarrow> nat \<Rightarrow> dense_params list
     \<Rightarrow> error + (vec \<times> DGLGraph)" where
  "recorded x d model g epoch ps =
     and_then (GCN_forward (Dropout x (TrainPass epoch)) model ps g (features d)) (\<lambda>(pred, g').
     and_then (loss_fcn x pred (labels d) (train_mask d)) (\<lambda>loss.
     Inr (loss, g')))"

definition train_epoch ::
  "'o ext \<Rightarrow> dataset \<Rightarrow> GCNLayer list \<Rightarrow> nat \<Rightarrow> nat \<Rightarrow> 'o train_state
     \<Rightarrow> error + 'o train_state" where
  "train_epoch x d model n_edges epoch st =
     (let t0 = time x (clock st);
          c1 = (if 3 \<le> epoch then clock st + 1 else clock st) in
      and_then (recorded x d model (g_state st) epoch (params st)) (\<lambda>(loss, g').
      let (opt', params') =
            backward_step x (opt st)
              (\<lambda>ps. and_then (recorded x d model (g_state st) epoch ps) (\<lambda>(l, _). Inr l))
              (params st) (length (features d));
          st1 = st\<lparr>params := params', opt := opt', g_state := g', clock := c1\<rparr> in
      if 3 \<le> epoch then
        (let dur' = dur st1 @ [time x c1 - t0] in
         and_then (first loss) (\<lambda>l0.
         Inr (st1\<lparr>dur := dur', clock := c1 + 1,
                  stdout := stdout st1 @
                    [EpochLine epoch l0 (np_mean dur') (kteps n_edges (np_mean dur'))]\<rparr>)))
      else Inr st1))"

fun train_loop ::
  "'o ext \<Rightarrow> dataset \<Rightarrow> GCNLayer list \<Rightarrow> nat \<Rightarrow> nat list \<Rightarrow> 'o train_state
     \<Rightarrow> error + 'o train_state" where
  "train_loop x d model n_edges [] st = Inr st"
| "train_loop x d model n_edges (epoch # epochs) st =
     and_then (train_epoch x d model n_edges epoch st)
       (\<lambda>st'. train_loop x d model n_edges epochs st')"

subsection \<open>main\<close>

text \<open>
  \<^verbatim>\<open>main(args)\<close>, from the loaded dataset to the printed lines and the returned
  accuracy. Moving the tensors to the device (\<^verbatim>\<open>as_in_context\<close>) does not change
  their values and is left out. \<open>trained\<close> is \<open>main\<close> up to the end of the training
  loop: the model and the state it leaves.
\<close>

definition trained :: "'o ext \<Rightarrow> args \<Rightarrow> dataset \<Rightarrow> error + (GCNLayer list \<times> 'o train_state)" where
  "trained x a d =
     (let es = (if args_self_loop a
                then add_edges_from (graph d) (self_loops (graph_nodes d))
                else graph d);
          in_feats = feat_width (features d);
          n_classes = num_labels d;
          n_edges = length es;
          out0 = [EdgesLine n_edges n_classes];
          g = \<lparr>n_nodes = graph_nodes d, edges = es, ndata = Map.empty\<rparr> in
      and_then (set_norm g) (\<lambda>g.
      let model = GCN_init in_feats (args_n_hidden a) n_classes (args_n_layers a)
                    (Some relu) (args_dropout a) (args_normalization a);
          st0 = \<lparr>params = initialize x model in_feats,
                 opt = Trainer x (args_lr a) (args_weight_decay a),
                 g_state = g, dur = [], clock = 0, stdout = out0 @ [ParamsLine]\<rparr> in
      and_then (train_loop x d model n_edges [0..<nat (args_n_epochs a)] st0) (\<lambda>st.
      Inr (model, st))))"

definition main :: "'o ext \<Rightarrow> args \<Rightarrow> dataset \<Rightarrow> error + (line list \<times> fl)" where
  "main x a d =
     and_then (trained x a d) (\<lambda>(model, st).
     and_then (GCN_forward (Dropout x EvalPass) model (params st) (g_state st) (features d))
       (\<lambda>(pred, g').
     and_then (accuracy pred (labels d)) (\<lambda>acc.
     Inr (stdout st @ [AccuracyLine acc], acc))))"

subsection \<open>The layer as the claims describe it\<close>

text \<open>
  The words of the claim about a layer: the dense transform of each row, the product of
  each row with its node's coefficient, the sum over the incoming edges of a node, and the
  activation, the identity where the layer has none.
\<close>

definition shape :: "matrix \<Rightarrow> nat list" where
  "shape h = map length h"

definition affine :: "dense_params \<Rightarrow> matrix \<Rightarrow> matrix" where
  "affine p h = (case p of (W, b) \<Rightarrow> map (\<lambda>row. map (\<lambda>(w, c). dot row w + c) (zip W b)) h)"

definition norm_mul :: "vec \<Rightarrow> matrix \<Rightarrow> matrix" where
  "norm_mul cs h = map2 (\<lambda>c row. map (\<lambda>e. e * c) row) cs h"

definition aggregate :: "(nat \<times> nat) list \<Rightarrow> nat \<Rightarrow> nat \<Rightarrow> matrix \<Rightarrow> matrix" where
  "aggregate es n w h =
     map (\<lambda>v. map (\<lambda>j. sum_list (map (\<lambda>(u, v'). h ! u ! j) (filter (\<lambda>(u, v'). v' = v) es)))
                 [0..<w])
         [0..<n]"

definition activate :: "(matrix \<Rightarrow> matrix) option \<Rightarrow> matrix \<Rightarrow> matrix" where
  "activate a h = (case a of None \<Rightarrow> h | Some act \<Rightarrow> act h)"

definition dropped :: "(real \<Rightarrow> matrix \<Rightarrow> matrix) \<Rightarrow> real \<Rightarrow> matrix \<Rightarrow> matrix" where
  "dropped dropf q h = (if q \<noteq> 0 then dropf q h else h)"

subsection \<open>The accuracy as the claims describe it\<close>

text \<open>A matrix of real numbers as a tensor.\<close>

definition tensor_of :: "real list list \<Rightarrow> matrix" where
  "tensor_of h = map (map Finite) h"



text \<open>
  What the script computes on finite predictions, in closed form: the mean over the rows
  of the softmax probability, at logits multiplied by 100, of the row's label.
\<close>

definition label_probability :: "real list \<Rightarrow> int \<Rightarrow> real" where
  "label_probability row l =
     exp (row ! clip_index (length row) l * 100) / sum_list (map (\<lambda>x. exp (x * 100)) row)"

definition soft_accuracy :: "real list list \<Rightarrow> int list \<Rightarrow> real" where
  "soft_accuracy pred labs =
     sum_list (map2 label_probability pred labs) / real (length pred)"

text \<open>A float value that is a number between 0 and 1.\<close>

fun in_unit_interval :: "fl \<Rightarrow> bool" where
  "in_unit_interval (Finite r) = (0 \<le> r \<and> r \<le> 1)"
| "in_unit_interval other = False"

definition unit_or_nan :: "fl \<Rightarrow> bool" where
  "unit_or_nan y = (y = NaN \<or> in_unit_interval y)"

text \<open>The values an exponential can take: a non-negative number, the infinity or \<^verbatim>\<open>nan\<close>.\<close>

definition exp_range :: "fl \<Rightarrow> bool" where
  "exp_range e = (case e of Finite a \<Rightarrow> 0 \<le> a | PosInf \<Rightarrow> True | NegInf \<Rightarrow> False | NaN \<Rightarrow> True)"

subsection \<open>The epochs that the log reports\<close>

fun epoch_of :: "line \<Rightarrow> nat list" where
  "epoch_of (EpochLine e l t k) = [e]"
| "epoch_of other = []"

definition logged_epochs :: "line list \<Rightarrow> nat list" where
  "logged_epochs out = concat (map epoch_of out)"

subsection \<open>Concrete inputs\<close>

text \<open>A graph of two nodes joined in both directions, with unit coefficients.\<close>

definition g_pair :: DGLGraph where
  "g_pair = \<lparr>n_nodes = 2, edges = [(0, 1), (1, 0)], ndata = [''norm'' \<mapsto> [[Finite 1], [Finite 1]]]\<rparr>"

text \<open>A graph of two nodes with the single edge from node 0 to node 1.\<close>

definition g_arrow :: DGLGraph where
  "g_arrow = \<lparr>n_nodes = 2, edges = [(0, 1)], ndata = Map.empty\<rparr>"

text \<open>The same graph with the coefficients that its in-degrees give.\<close>

definition g_arrow_norm :: DGLGraph where
  "g_arrow_norm = g_arrow\<lparr>ndata := [''norm'' \<mapsto> [[PosInf], [Finite 1]]]\<rparr>"

text \<open>A layer of one unit, without dropout and without activation.\<close>

definition l_unit :: GCNLayer where
  "l_unit = \<lparr>dense = \<lparr>units = 1, use_bias = True\<rparr>, activation = None, dropout = 0\<rparr>"

text \<open>
  A run of four epochs on the graph of two joined nodes: one feature, one class, one
  hidden unit, all parameters zero; the optimiser leaves the parameters as they are, the
  loss of a node is its mask entry, and the clock advances by one per reading.
\<close>

definition x_still :: "unit ext" where
  "x_still =
     \<lparr>Dropout = (\<lambda>ps i q h. h),
      initialize = (\<lambda>model w. [([[Finite 0]], [Finite 0]), ([[Finite 0]], [Finite 0])]),
      loss_fcn = (\<lambda>pred labs msk. Inr msk),
      Trainer = (\<lambda>lr wd. ()),
      backward_step = (\<lambda>s f ps n. (s, ps)),
      time = real\<rparr>"

definition a_four :: args where
  "a_four =
     \<lparr>args_dropout = 1 / 2, args_gpu = - 1, args_lr = 1 / 100, args_n_epochs = 4,
      args_n_hidden = 1, args_n_layers = 1, args_normalization = None,
      args_self_loop = False, args_weight_decay = 5 / 10000\<rparr>"

definition d_pair :: dataset where
  "d_pair =
     \<lparr>graph_nodes = 2, graph = [(0, 1), (1, 0)], features = [[Finite 1], [Finite 2]],
      labels = [0, 0], train_mask = [Finite 1, Finite 0], num_labels = 1\<rparr>"

definition m_pair :: "GCNLayer list" where
  "m_pair = GCN_init 1 1 1 1 (Some relu) (1 / 2) None"

definition p_zero :: "dense_params list" where
  "p_zero = [([[Finite 0]], [Finite 0]), ([[Finite 0]], [Finite 0])]"

text \<open>The same dataset with the single edge from node 0 to node 1.\<close>

definition d_arrow :: dataset where
  "d_arrow = d_pair\<lparr>graph := [(0, 1)]\<rparr>"

section \<open>Properties\<close>

lemmas fl_arith = plus_fl_def times_fl_def zero_fl_def divide_fl_def minus_fl_def

subsection \<open>The command line\<close>

text \<open>
  Claim C5, as the spec states it: the flag \<^verbatim>\<open>--normalization\<close> accepts the three values
  sym, left and none. It fails on the code: the choices are sym and left, and the value
  none is rejected as an invalid choice.
\<close>

theorem normalization_none_rejected:
  "parse_normalization (Some ''none'') = Inl (InvalidChoice ''none'')"
  by (simp add: parse_normalization_def check_value_def normalization_choices_def and_then_def)

text \<open>
  Claim C5, amended: the flag accepts exactly the two values sym and left; every other
  value is rejected as an invalid choice, and a command line without the flag gives
  \<^verbatim>\<open>None\<close>.
\<close>

theorem normalization_accepts_sym_left:
  "parse_normalization None = Inr None \<and>
   parse_normalization (Some v) =
     (if v = ''sym'' \<or> v = ''left'' then Inr (Some v) else Inl (InvalidChoice v))"
  by (simp add: parse_normalization_def check_value_def normalization_choices_def and_then_def)

subsection \<open>The node data across a layer call\<close>

text \<open>
  Claim C9: a call of \<open>GCNLayer.forward\<close> that returns leaves the node data as it found
  them, the temporary field \<open>h\<close> apart: after the call the key \<open>h\<close> is absent and the
  field \<open>norm\<close> holds what it held before. Nothing else of the graph changes.
\<close>

theorem forward_restores_ndata:
  assumes "GCNLayer_forward dropf l p g h = Inr (out, g')"
  shows "ndata g' ''h'' = None \<and> ndata g' ''norm'' = ndata g ''norm''
         \<and> g' = g\<lparr>ndata := (ndata g)(''h'' := None)\<rparr>"
  using assms
  by (auto simp: GCNLayer_forward_def Let_def and_then_def ndata_get_def ndata_set_def
      update_all_copy_src_sum_def ndata_pop_def split: sum.splits option.splits if_splits prod.splits)

lemma forward_pair:
  "GCNLayer_forward dropf l_unit ([[Finite 1]], [Finite 0]) g_pair [[Finite 1], [Finite 2]] = Inr ([[Finite 2], [Finite 1]], g_pair)"
  by (simp add: GCNLayer_forward_def l_unit_def g_pair_def Dense_forward_def dot_def
      and_then_def ndata_get_def mul_def mul_row_def ndata_set_def update_all_copy_src_sum_def
      feat_width_def ndata_pop_def vadd_def eval_nat_numeral fl_arith)

theorem forward_restores_ndata_witness:
  "GCNLayer_forward (\<lambda>q y. y) l_unit ([[Finite 1]], [Finite 0]) g_pair [[Finite 1], [Finite 2]] = Inr ([[Finite 2], [Finite 1]], g_pair)
   \<and> ndata g_pair ''h'' = None \<and> ndata g_pair ''norm'' = Some [[Finite 1], [Finite 1]]"
  using forward_restores_ndata [OF forward_pair [of "\<lambda>q y. y"]] forward_pair [of "\<lambda>q y. y"]
  by (simp add: g_pair_def)

subsection \<open>The normalisation coefficients\<close>

text \<open>
  Claim C3, as the spec states it: in a graph with no isolated nodes every coefficient
  is finite and non-negative. It fails on the code: the coefficient is computed from the
  in-degree, and a node that only has outgoing edges is not isolated and has in-degree
  zero. In the graph with the single edge from node 0 to node 1 the coefficient of node 0
  is not finite.
\<close>

theorem zero_in_degree_not_finite:
  "no_isolated_nodes g_arrow \<and> \<not> list_all (\<lambda>c. is_finite c \<and> non_negative c) (norm_coefs g_arrow)"
  by (simp add: g_arrow_def no_isolated_nodes_def isolated_def norm_coefs_def in_degrees_def in_degree_def
       power_neg_half_def upt_rec numeral_2_eq_2)

text \<open>
  Claim C3, amended: in a graph where every node has at least one incoming edge, every
  coefficient is finite and non-negative; it is the inverse square root of the in-degree.
\<close>

theorem norm_coefs_finite:
  assumes "list_all (\<lambda>v. 1 \<le> in_degree g v) [0..<n_nodes g]"
  shows "length (norm_coefs g) = n_nodes g
     \<and> list_all (\<lambda>c. is_finite c \<and> non_negative c) (norm_coefs g)
     \<and> (\<forall>v < n_nodes g. norm_coefs g ! v = Finite (1 / sqrt (real (in_degree g v))))"
proof -
  have pos: "0 < in_degree g v" if "v < n_nodes g" for v
  proof -
    have "v \<in> set [0..<n_nodes g]" using that by simp
    with assms have "1 \<le> in_degree g v" unfolding list_all_iff by blast
    then show ?thesis by simp
  qed
  have nth: "\<And>v. v < n_nodes g \<Longrightarrow>
      norm_coefs g ! v = Finite (1 / sqrt (real (in_degree g v)))"
    using pos
    by (simp add: norm_coefs_def in_degrees_def power_neg_half_def powr_minus powr_half_sqrt
        inverse_eq_divide)
  have len: "length (norm_coefs g) = n_nodes g"
    by (simp add: norm_coefs_def in_degrees_def)
  have "\<And>c. c \<in> set (norm_coefs g) \<Longrightarrow> is_finite c \<and> non_negative c"
  proof -
    fix c assume "c \<in> set (norm_coefs g)"
    then obtain v where "v < n_nodes g" "c = norm_coefs g ! v"
      using len by (auto simp: in_set_conv_nth)
    then show "is_finite c \<and> non_negative c"
      using nth by simp
  qed
  then show ?thesis
    using len nth by (simp add: list_all_iff)
qed

theorem norm_coefs_finite_witness:
  "list_all (\<lambda>v. 1 \<le> in_degree g_pair v) [0..<n_nodes g_pair]
   \<and> norm_coefs g_pair = [Finite 1, Finite 1]"
  using norm_coefs_finite [of g_pair]
  by (simp add: g_pair_def norm_coefs_def in_degrees_def in_degree_def power_neg_half_def upt_rec numeral_2_eq_2)

subsection \<open>A layer call as a composition\<close>

text \<open>The product with the column of coefficients multiplies each row by its node's coefficient.\<close>

lemma collect_Inr: "collect (map Inr xs) = Inr xs"
  by (induction xs) simp_all

lemma mul_row_single: "mul_row row [c] = Inr (map (\<lambda>e. e * c) row)"
proof (cases "length row = 1")
  case True
  then obtain a where "row = [a]" by (cases row) auto
  then show ?thesis by (simp add: mul_row_def)
next
  case False
  then show ?thesis by (simp add: mul_row_def)
qed

lemma map2_mul_row_column:
  "length z = length cs \<Longrightarrow>
   map2 mul_row z (expand_dims_1 cs) = map Inr (norm_mul cs z)"
proof (induction z cs rule: list_induct2)
  case Nil
  then show ?case by (simp add: expand_dims_1_def norm_mul_def)
next
  case (Cons row z c cs)
  then show ?case by (simp add: expand_dims_1_def norm_mul_def mul_row_single)
qed

lemma mul_column:
  "length z = length cs \<Longrightarrow> mul z (expand_dims_1 cs) = Inr (norm_mul cs z)"
  by (simp add: mul_def map2_mul_row_column collect_Inr) (simp add: expand_dims_1_def)

lemma length_norm_mul: "length z = length cs \<Longrightarrow> length (norm_mul cs z) = length cs"
  by (simp add: norm_mul_def)

lemma shape_norm_mul: "length z = length cs \<Longrightarrow> shape (norm_mul cs z) = shape z"
  by (induction z cs rule: list_induct2) (simp_all add: norm_mul_def shape_def)

text \<open>On inputs of the right width the dense transform is the affine map of its parameters.\<close>

lemma Dense_affine:
  assumes "length W = units d" "length b = units d" "use_bias d"
    and "list_all (\<lambda>w. length w = k) W" and "width_is k x"
  shows "Dense_forward d (W, b) x = Inr (affine (W, b) x)"
  using assms
  by (auto simp: Dense_forward_def affine_def width_is_def list_all_iff list_ex_iff)

lemma shape_affine:
  "length W = length b \<Longrightarrow> shape (affine (W, b) x) = replicate (length x) (length W)"
  by (induction x) (simp_all add: shape_def affine_def)

text \<open>
  Adding each edge's source row into its destination's row gives every node the sum
  over its incoming edges.
\<close>

lemma sum_into_nth:
  assumes "list_all (\<lambda>(u, v). u < n \<and> v < n) es"
    and "length x = n" and "length acc = n"
    and "shape x = replicate n w" and "shape acc = replicate n w"
  shows "sum_into x es acc =
     map (\<lambda>v. map (\<lambda>j. acc ! v ! j
                    + sum_list (map (\<lambda>(u, v'). x ! u ! j) (filter (\<lambda>(u, v'). v' = v) es)))
                 [0..<w])
         [0..<n]"
  using assms
proof (induction es arbitrary: acc)
  case Nil
  have "\<And>v. v < n \<Longrightarrow> length (acc ! v) = w"
    using Nil by (metis length_map nth_map nth_replicate shape_def)
  then show ?case using Nil
    by (auto intro!: nth_equalityI simp: map_nth)
next
  case (Cons e es)
  obtain u v where e: "e = (u, v)" by (cases e)
  have uv: "u < n" "v < n" using Cons.prems(1) e by auto
  have lenx: "\<And>k. k < n \<Longrightarrow> length (x ! k) = w"
    using Cons.prems by (metis length_map nth_map nth_replicate shape_def)
  have lena: "\<And>k. k < n \<Longrightarrow> length (acc ! k) = w"
    using Cons.prems by (metis length_map nth_map nth_replicate shape_def)
  let ?acc = "acc[v := vadd (acc ! v) (x ! u)]"
  have sh: "shape ?acc = replicate n w"
    using Cons.prems uv lenx lena
    by (auto intro!: nth_equalityI simp: shape_def vadd_def nth_list_update)
  have IH: "sum_into x es ?acc =
     map (\<lambda>v'. map (\<lambda>j. ?acc ! v' ! j
                    + sum_list (map (\<lambda>(u, v''). x ! u ! j) (filter (\<lambda>(u, v''). v'' = v') es)))
                 [0..<w])
         [0..<n]"
    using Cons.IH [of ?acc] Cons.prems sh by simp
  show ?case
    unfolding e sum_into.simps IH
    using uv lenx lena Cons.prems(3)
    by (auto simp: nth_list_update vadd_def add.assoc)
qed

lemma sum_into_aggregate:
  assumes "list_all (\<lambda>(u, v). u < n \<and> v < n) es"
    and "length x = n" and "shape x = replicate n w"
  shows "sum_into x es (replicate n (replicate w 0)) = aggregate es n w x"
  using sum_into_nth [OF assms(1,2), of "replicate n (replicate w 0)" w] assms(3)
  by (simp add: shape_def aggregate_def)

lemma feat_width_shape:
  "shape x = replicate n w \<Longrightarrow> 0 < n \<Longrightarrow> feat_width x = w"
  by (cases x; cases n) (auto simp: shape_def feat_width_def)

lemma update_all_aggregate:
  assumes "wf_graph g" and "ndata g src = Some x"
    and "length x = n_nodes g" and "shape x = replicate (n_nodes g) w"
  shows "update_all_copy_src_sum src out g =
           Inr (g\<lparr>ndata := (ndata g)(out \<mapsto> aggregate (edges g) (n_nodes g) w x)\<rparr>)"
proof (cases "n_nodes g = 0")
  case True
  then have "edges g = []" using assms(1)
    by (cases "edges g") (auto simp: wf_graph_def)
  then show ?thesis using True assms(2,3)
    by (simp add: update_all_copy_src_sum_def aggregate_def)
next
  case False
  then have "feat_width x = w" using assms(4) by (simp add: feat_width_shape)
  moreover have "list_all (\<lambda>(u, v). u < n_nodes g \<and> v < n_nodes g) (edges g)"
    using assms(1) by (simp add: wf_graph_def)
  ultimately show ?thesis using assms(2-4)
    by (simp add: update_all_copy_src_sum_def sum_into_aggregate)
qed

lemma length_aggregate: "length (aggregate es n w x) = n"
  by (simp add: aggregate_def)

text \<open>
  Claim C2: on a feature matrix with one row per node and rows of the width of the dense
  transform, \<open>GCNLayer.forward\<close> returns
  \<open>activation (norm \<odot> aggregate (norm \<odot> dense (dropout h)))\<close>, in this order: the dropout
  (skipped at rate zero), the dense transform, the product with the coefficients, the
  aggregation, which gives node \<open>v\<close> the sum over the edges \<open>(u, v)\<close> of the row of \<open>u\<close>,
  the product with the coefficients again, and the activation, which is the identity
  where the layer has none, as in the last layer of the model.
\<close>

theorem forward_is_composition:
  assumes wf: "wf_graph g"
    and norm: "ndata g ''norm'' = Some (expand_dims_1 cs)" "length cs = n_nodes g"
    and par: "length W = units (dense l)" "length b = units (dense l)" "use_bias (dense l)"
             "list_all (\<lambda>w. length w = k) W"
    and inp: "length h = n_nodes g" "width_is k h"
    and dr: "\<And>q y. shape (dropf q y) = shape y"
  shows "GCNLayer_forward dropf l (W, b) g h =
     Inr (activate (activation l)
            (norm_mul cs
               (aggregate (edges g) (n_nodes g) (units (dense l))
                  (norm_mul cs (affine (W, b) (dropped dropf (dropout l) h))))),
          g\<lparr>ndata := (ndata g)(''h'' := None)\<rparr>)
   \<and> activate (activation (last (GCN_init i nh c n act q nz))) y = y"
proof -
  let ?x = "dropped dropf (dropout l) h"
  let ?z = "affine (W, b) ?x"
  let ?h3 = "norm_mul cs ?z"
  let ?agg = "aggregate (edges g) (n_nodes g) (units (dense l)) ?h3"
  have shx: "shape ?x = shape h" by (simp add: dropped_def dr)
  then have lenx: "length ?x = n_nodes g" using inp(1) by (metis length_map shape_def)
  have wx: "width_is k ?x"
    using shx inp(2) by (simp add: width_is_def list_all_iff shape_def) (metis list.set_map imageE image_eqI)
  have h1: "(if dropout l \<noteq> 0 then dropf (dropout l) h else h) = ?x"
    by (simp add: dropped_def)
  have d: "Dense_forward (dense l) (W, b) ?x = Inr ?z"
    using par wx by (rule Dense_affine)
  have shz: "shape ?z = replicate (n_nodes g) (units (dense l))"
    using shape_affine [of W b ?x] par lenx by simp
  have lenz: "length ?z = length cs" using lenx norm(2) by (simp add: affine_def)
  have m1: "mul ?z (expand_dims_1 cs) = Inr ?h3" using lenz by (rule mul_column)
  have len3: "length ?h3 = n_nodes g" using lenz norm(2) by (simp add: length_norm_mul)
  have sh3: "shape ?h3 = replicate (n_nodes g) (units (dense l))"
    using shape_norm_mul [OF lenz] shz by simp
  let ?g1 = "g\<lparr>ndata := (ndata g)(''h'' \<mapsto> ?h3)\<rparr>"
  have s1: "ndata_set g ''h'' ?h3 = Inr ?g1" using len3 by (simp add: ndata_set_def)
  let ?g2 = "g\<lparr>ndata := (ndata g)(''h'' \<mapsto> ?agg)\<rparr>"
  have u: "update_all_copy_src_sum ''h'' ''h'' ?g1 = Inr ?g2"
    using update_all_aggregate [of ?g1 "''h''" ?h3 "units (dense l)" "''h''"] wf len3 sh3
    by (simp add: wf_graph_def)
  let ?g3 = "g\<lparr>ndata := (ndata g)(''h'' := None)\<rparr>"
  have pp: "ndata_pop ?g2 ''h'' = Inr (?agg, ?g3)" by (simp add: ndata_pop_def)
  have n3: "ndata_get ?g3 ''norm'' = Inr (expand_dims_1 cs)"
    using norm(1) by (simp add: ndata_get_def)
  have m2: "mul ?agg (expand_dims_1 cs) = Inr (norm_mul cs ?agg)"
    using norm(2) by (intro mul_column) (simp add: length_aggregate)
  have n0: "ndata_get g ''norm'' = Inr (expand_dims_1 cs)"
    using norm(1) by (simp add: ndata_get_def)
  have fw: "GCNLayer_forward dropf l (W, b) g h =
     Inr (activate (activation l) (norm_mul cs ?agg), ?g3)"
    unfolding GCNLayer_forward_def Let_def h1
    by (simp add: and_then_def d n0 m1 s1 u pp n3 m2 activate_def del: fun_upd_apply)
  have "activate (activation (last (GCN_init i nh c n act q nz))) y = y"
    by (simp add: GCN_init_def GCN_calls_def GCNLayer_init_def activate_def)
  with fw show ?thesis by simp
qed

theorem forward_is_composition_witness:
  "wf_graph g_pair \<and> ndata g_pair ''norm'' = Some (expand_dims_1 [Finite 1, Finite 1])
   \<and> length [Finite 1, Finite 1] = n_nodes g_pair
   \<and> width_is 1 [[Finite 1], [Finite 2]]
   \<and> GCNLayer_forward (\<lambda>q y. y) l_unit ([[Finite 1]], [Finite 0]) g_pair [[Finite 1], [Finite 2]]
       = Inr ([[Finite 2], [Finite 1]], g_pair\<lparr>ndata := (ndata g_pair)(''h'' := None)\<rparr>)"
proof -
  have wf: "wf_graph g_pair" by (simp add: wf_graph_def g_pair_def)
  have nm: "ndata g_pair ''norm'' = Some (expand_dims_1 [Finite 1, Finite 1])"
    by (simp add: g_pair_def expand_dims_1_def)
  have ln: "length [Finite 1, Finite 1] = n_nodes g_pair" by (simp add: g_pair_def)
  have p1: "length [[Finite 1]] = units (dense l_unit)" by (simp add: l_unit_def)
  have p2: "length [Finite 0] = units (dense l_unit)" by (simp add: l_unit_def)
  have p3: "use_bias (dense l_unit)" by (simp add: l_unit_def)
  have p4: "list_all (\<lambda>w. length w = 1) [[Finite 1]]" by simp
  have i1: "length [[Finite 1], [Finite 2]] = n_nodes g_pair" by (simp add: g_pair_def)
  have i2: "width_is 1 [[Finite 1], [Finite 2]]" by (simp add: width_is_def)
  have dr: "\<And>q y. shape ((\<lambda>q y. y) q y) = shape y" by simp
  have agg: "norm_mul [Finite 1, Finite 1] (aggregate (edges g_pair) (n_nodes g_pair) (units (dense l_unit))
      (norm_mul [Finite 1, Finite 1] (affine ([[Finite 1]], [Finite 0]) (dropped (\<lambda>q y. y) (dropout l_unit) [[Finite 1], [Finite 2]]))))
     = [[Finite 2], [Finite 1]]"
    by (simp add: norm_mul_def aggregate_def affine_def dropped_def dot_def g_pair_def l_unit_def
        upt_rec numeral_2_eq_2 fl_arith)
  have "GCNLayer_forward (\<lambda>q y. y) l_unit ([[Finite 1]], [Finite 0]) g_pair [[Finite 1], [Finite 2]]
      = Inr (activate (activation l_unit) [[Finite 2], [Finite 1]],
             g_pair\<lparr>ndata := (ndata g_pair)(''h'' := None)\<rparr>)"
    using forward_is_composition [OF wf nm ln p1 p2 p3 p4 i1 i2 dr, THEN conjunct1]
    unfolding agg .
  moreover have "activate (activation l_unit) [[Finite 2], [Finite 1]] = [[Finite 2], [Finite 1]]"
    by (simp add: activate_def l_unit_def)
  ultimately show ?thesis using wf nm ln i2 by simp
qed

subsection \<open>The final accuracy\<close>

lemma collect_Inr_iff:
  "collect rs = Inr xs \<Longrightarrow> rs = map Inr xs"
proof (induction rs arbitrary: xs)
  case Nil
  then show ?case by simp
next
  case (Cons r rs)
  then show ?case by (cases r) (auto split: sum.splits)
qed

lemma elem_le_sum_list:
  fixes xs :: "real list"
  assumes "\<And>y. y \<in> set xs \<Longrightarrow> 0 \<le> y" and "x \<in> set xs"
  shows "x \<le> sum_list xs"
  using assms
proof (induction xs)
  case Nil
  then show ?case by simp
next
  case (Cons a xs)
  have nn: "0 \<le> sum_list xs" using Cons.prems(1) by (simp add: sum_list_nonneg)
  have a0: "0 \<le> a" using Cons.prems(1) by simp
  show ?case
  proof (cases "x = a")
    case True
    then show ?thesis using nn by simp
  next
    case False
    then have "x \<in> set xs" using Cons.prems(2) by simp
    then have "x \<le> sum_list xs" using Cons.IH Cons.prems(1) by simp
    then show ?thesis using a0 by simp
  qed
qed

lemma clip_index_less: "0 < n \<Longrightarrow> clip_index n i < n"
  unfolding clip_index_def by linarith

text \<open>Sums and quotients of float values.\<close>

lemma plus_Finite_cases:
  "a + b = Finite c \<Longrightarrow> \<exists>a' b'. a = Finite a' \<and> b = Finite b' \<and> c = a' + b'"
  by (cases a; cases b) (auto simp: plus_fl_def)

lemma sum_list_map_Finite: "sum_list (map Finite rs) = Finite (sum_list rs)"
  by (induction rs) (simp_all add: plus_fl_def zero_fl_def)

lemma sum_list_Finite:
  "sum_list xs = Finite s \<Longrightarrow> \<exists>rs. xs = map Finite rs \<and> s = sum_list rs"
proof (induction xs arbitrary: s)
  case Nil
  then show ?case by (simp add: zero_fl_def)
next
  case (Cons x xs)
  from Cons.prems have "x + sum_list xs = Finite s" by simp
  then obtain a t where x: "x = Finite a" and t: "sum_list xs = Finite t" and s: "s = a + t"
    using plus_Finite_cases by blast
  from Cons.IH [OF t] obtain rs where "xs = map Finite rs" "t = sum_list rs" by blast
  then have "x # xs = map Finite (a # rs) \<and> s = sum_list (a # rs)" using x s by simp
  then show ?case by (intro exI [of _ "a # rs"])
qed

lemma NaN_plus [simp]: "NaN + x = NaN" "x + NaN = NaN"
  by (cases x; simp add: plus_fl_def)+

lemma sum_list_NaN: "NaN \<in> set xs \<Longrightarrow> sum_list xs = NaN"
  by (induction xs) auto

lemma divide_NaN [simp]: "x / NaN = NaN" "NaN / x = NaN"
  by (cases x; simp add: divide_fl_def)+

lemma mean_single: "mean [a] = a"
  by (cases a) (simp_all add: mean_def plus_fl_def zero_fl_def divide_fl_def)

text \<open>
  Every entry of a softmax is a number between 0 and 1 or \<^verbatim>\<open>nan\<close>, and so is a mean of
  such entries.
\<close>

lemma fl_exp_range: "exp_range (fl_exp y)"
  by (cases y) (simp_all add: exp_range_def)

lemma quotient_range:
  assumes all: "\<And>z. z \<in> set e \<Longrightarrow> exp_range z" and mem: "y \<in> set e"
  shows "unit_or_nan (y / sum_list e)"
proof (cases "sum_list e")
  case (Finite s)
  from sum_list_Finite [OF Finite] obtain rs where rs: "e = map Finite rs" "s = sum_list rs"
    by blast
  have nn: "\<And>r. r \<in> set rs \<Longrightarrow> 0 \<le> r"
  proof -
    fix r assume "r \<in> set rs"
    then have "Finite r \<in> set e" using rs(1) by simp
    from all [OF this] show "0 \<le> r" by (simp add: exp_range_def)
  qed
  from mem rs(1) obtain a where a: "y = Finite a" "a \<in> set rs" by auto
  have le: "a \<le> s" unfolding rs(2) using nn a(2) by (rule elem_le_sum_list)
  have a0: "0 \<le> a" using nn a(2) by simp
  show ?thesis
  proof (cases "s = 0")
    case True
    then have "a = 0" using le a0 by simp
    then show ?thesis using True Finite a(1) by (simp add: unit_or_nan_def divide_fl_def)
  next
    case False
    then have "0 < s" using le a0 by simp
    then have "0 \<le> a / s \<and> a / s \<le> 1" using le a0 by (simp add: divide_le_eq_1_pos)
    then show ?thesis using False Finite a(1) by (simp add: unit_or_nan_def divide_fl_def)
  qed
next
  case PosInf
  have "exp_range y" using all mem by simp
  then show ?thesis using PosInf
    by (cases y) (simp_all add: unit_or_nan_def divide_fl_def exp_range_def)
next
  case NegInf
  have "exp_range y" using all mem by simp
  then show ?thesis using NegInf
    by (cases y) (simp_all add: unit_or_nan_def divide_fl_def exp_range_def)
next
  case NaN
  then show ?thesis by (simp add: unit_or_nan_def)
qed

lemma softmax_row_range:
  assumes "y \<in> set (softmax_row row)"
  shows "unit_or_nan y"
proof -
  let ?e = "map (\<lambda>x. fl_exp (x - row_max row)) row"
  from assms obtain z where z: "z \<in> set ?e" "y = z / sum_list ?e"
    by (auto simp: softmax_row_def Let_def)
  have "\<And>z. z \<in> set ?e \<Longrightarrow> exp_range z" by (auto simp: fl_exp_range)
  from quotient_range [OF this z(1)] z(2) show ?thesis by simp
qed

lemma mean_range:
  assumes "\<And>y. y \<in> set v \<Longrightarrow> unit_or_nan y"
  shows "unit_or_nan (mean v)"
proof (cases "NaN \<in> set v")
  case True
  then show ?thesis by (simp add: mean_def sum_list_NaN unit_or_nan_def)
next
  case False
  have fin: "\<And>y. y \<in> set v \<Longrightarrow> \<exists>r. y = Finite r \<and> 0 \<le> r \<and> r \<le> 1"
  proof -
    fix y assume y: "y \<in> set v"
    with False have "y \<noteq> NaN" by auto
    with assms [OF y] show "\<exists>r. y = Finite r \<and> 0 \<le> r \<and> r \<le> 1"
      by (cases y) (simp_all add: unit_or_nan_def)
  qed
  define rs where "rs = map (\<lambda>y. case y of Finite r \<Rightarrow> r | _ \<Rightarrow> 0) v"
  have v: "v = map Finite rs"
    unfolding rs_def using fin by (induction v) (auto split: fl.splits)
  have b: "\<And>r. r \<in> set rs \<Longrightarrow> 0 \<le> r \<and> r \<le> 1"
  proof -
    fix r assume "r \<in> set rs"
    then have "Finite r \<in> set v" using v by (metis image_eqI list.set_map)
    from fin [OF this] show "0 \<le> r \<and> r \<le> 1" by simp
  qed
  have s0: "0 \<le> sum_list rs" using b by (simp add: sum_list_nonneg)
  have "sum_list rs \<le> sum_list (map (\<lambda>_. 1) rs)"
    using b by (intro sum_list_mono [of rs "\<lambda>x. x" "\<lambda>_. 1", simplified]) auto
  then have s1: "sum_list rs \<le> real (length rs)" by (simp add: sum_list_triv)
  have m: "mean v = Finite (sum_list rs) / Finite (real (length rs))"
    by (simp add: mean_def v sum_list_map_Finite)
  show ?thesis
  proof (cases "rs = []")
    case True
    then show ?thesis using m by (simp add: divide_fl_def unit_or_nan_def)
  next
    case False
    then have "0 < real (length rs)" by simp
    then have "0 \<le> sum_list rs / real (length rs) \<and> sum_list rs / real (length rs) \<le> 1"
      using s0 s1 by (simp add: divide_le_eq_1_pos)
    then show ?thesis using m False by (simp add: divide_fl_def unit_or_nan_def)
  qed
qed

lemma accuracy_range:
  assumes "accuracy pred labs = Inr acc"
  shows "unit_or_nan acc"
proof -
  let ?sm = "softmax (scale_by (Finite 100) pred)"
  from assms obtain picked where p: "pick ?sm labs = Inr picked"
    and acc: "acc = mean [mean picked]"
    by (auto simp: accuracy_def and_then_def split: sum.splits)
  from p have c: "collect (map2 pick_row ?sm labs) = Inr picked"
    by (auto simp: pick_def split: if_splits)
  then have eq: "map2 pick_row ?sm labs = map Inr picked" by (rule collect_Inr_iff)
  have "\<And>y. y \<in> set picked \<Longrightarrow> unit_or_nan y"
  proof -
    fix y assume "y \<in> set picked"
    then have "Inr y \<in> set (map2 pick_row ?sm labs)" unfolding eq by simp
    then obtain row l where rl: "(row, l) \<in> set (zip ?sm labs)" "pick_row row l = Inr y"
      by auto
    from rl(2) have ne: "row \<noteq> []" and y: "y = row ! clip_index (length row) l"
      by (auto simp: pick_row_def split: if_splits)
    from ne have "clip_index (length row) l < length row" by (simp add: clip_index_less)
    then have mem: "y \<in> set row" using y by simp
    from rl(1) have "row \<in> set ?sm" by (rule set_zip_leftD)
    then obtain r0 where "row = softmax_row r0" by (auto simp: softmax_def)
    with mem show "unit_or_nan y" using softmax_row_range by blast
  qed
  then have "unit_or_nan (mean picked)" by (rule mean_range)
  then show ?thesis using acc by (simp add: mean_single)
qed

text \<open>On finite predictions the accuracy is the mean of the label probabilities.\<close>

lemma fold_fl_max_Finite:
  "fold fl_max (map Finite xs) (Finite x) = Finite (fold max xs x)"
proof (induction xs arbitrary: x)
  case Nil
  then show ?case by simp
next
  case (Cons a xs)
  have "fl_max (Finite a) (Finite x) = Finite (max a x)"
    by (simp add: fl_max_def max_def)
  then show ?case using Cons.IH by simp
qed

lemma row_max_Finite:
  "rs \<noteq> [] \<Longrightarrow> \<exists>m. row_max (map Finite rs) = Finite m"
  by (cases rs) (simp_all add: row_max_def fold_fl_max_Finite)

lemma sum_exp_shift:
  "sum_list (map (\<lambda>x. exp (x - m)) rs) = sum_list (map exp rs) / exp (m::real)"
  by (induction rs) (simp_all add: exp_diff add_divide_distrib)

lemma sum_exp_pos: "rs \<noteq> [] \<Longrightarrow> 0 < sum_list (map exp (rs :: real list))"
proof (cases rs)
  case Nil
  then show "rs \<noteq> [] \<Longrightarrow> ?thesis" by simp
next
  case (Cons a xs)
  have "0 \<le> sum_list (map exp xs)" by (intro sum_list_nonneg) auto
  moreover have "0 < exp a" by simp
  ultimately show ?thesis using Cons by (simp add: add_pos_nonneg)
qed

lemma softmax_row_Finite:
  assumes "rs \<noteq> []"
  shows "softmax_row (map Finite rs)
         = map Finite (map (\<lambda>x. exp x / sum_list (map exp rs)) rs)"
proof -
  from row_max_Finite [OF assms] obtain m where m: "row_max (map Finite rs) = Finite m" by blast
  let ?s = "sum_list (map (\<lambda>x. exp (x - m)) rs)"
  have e: "map (\<lambda>x. fl_exp (x - row_max (map Finite rs))) (map Finite rs)
           = map Finite (map (\<lambda>x. exp (x - m)) rs)"
    by (simp add: m minus_fl_def)
  have s: "?s = sum_list (map exp rs) / exp m" by (rule sum_exp_shift)
  have pos: "0 < ?s" unfolding s using sum_exp_pos [OF assms] by simp
  have q: "\<And>x. exp (x - m) / ?s = exp x / sum_list (map exp rs)"
    unfolding s by (simp add: exp_diff)
  have "softmax_row (map Finite rs)
        = map (\<lambda>y. y / Finite ?s) (map Finite (map (\<lambda>x. exp (x - m)) rs))"
    unfolding softmax_row_def Let_def e sum_list_map_Finite ..
  also have "\<dots> = map Finite (map (\<lambda>x. exp (x - m) / ?s) rs)"
    using pos by (simp add: divide_fl_def)
  also have "\<dots> = map Finite (map (\<lambda>x. exp x / sum_list (map exp rs)) rs)"
    by (simp add: q)
  finally show ?thesis .
qed

lemma scale_embed:
  "scale_by (Finite 100) (tensor_of rp) = tensor_of (map (map (\<lambda>x. x * 100)) rp)"
  by (simp add: scale_by_def tensor_of_def times_fl_def)

lemma pick_softmax_row:
  assumes "row \<noteq> []"
  shows "pick_row (softmax_row (map Finite (map (\<lambda>x. x * 100) row))) l
         = Inr (Finite (label_probability row l))"
proof -
  have j: "clip_index (length row) l < length row" using assms by (simp add: clip_index_less)
  have "softmax_row (map Finite (map (\<lambda>x. x * 100) row))
        = map Finite (map (\<lambda>x. exp x / sum_list (map exp (map (\<lambda>x. x * 100) row)))
            (map (\<lambda>x. x * 100) row))"
    using assms by (intro softmax_row_Finite) simp
  then show ?thesis using assms j
    by (simp add: pick_row_def label_probability_def comp_def)
qed

lemma softmax_scale_embed_Cons:
  "softmax (scale_by (Finite 100) (tensor_of (row # rp)))
   = softmax_row (map Finite (map (\<lambda>x. x * 100) row))
     # softmax (scale_by (Finite 100) (tensor_of rp))"
  by (simp add: softmax_def scale_by_def tensor_of_def times_fl_def comp_def)

lemma map2_pick:
  assumes "list_all (\<lambda>row. row \<noteq> []) rp"
  shows "map2 pick_row (softmax (scale_by (Finite 100) (tensor_of rp))) labs
         = map Inr (map Finite (map2 label_probability rp labs))"
  using assms
proof (induction rp arbitrary: labs)
  case Nil
  then show ?case by (simp add: softmax_def scale_by_def tensor_of_def)
next
  case (Cons row rp)
  have a: "pick_row (softmax_row (map Finite (map (\<lambda>x. x * 100) row))) l
         = Inr (Finite (label_probability row l))" for l
    using Cons.prems by (intro pick_softmax_row) simp
  have b: "map2 pick_row (softmax (scale_by (Finite 100) (tensor_of rp))) ls
         = map Inr (map Finite (map2 label_probability rp ls))" for ls
    using Cons.IH Cons.prems by simp
  show ?case
  proof (cases labs)
    case Nil
    then show ?thesis by simp
  next
    case (Cons l ls)
    show ?thesis
      unfolding Cons softmax_scale_embed_Cons
      by (simp only: zip_Cons_Cons list.map prod.case a b)
  qed
qed

lemma accuracy_closed_form:
  assumes "rp \<noteq> []" and "length labs = length rp"
    and "list_all (\<lambda>row. row \<noteq> []) rp"
  shows "accuracy (tensor_of rp) labs = Inr (Finite (soft_accuracy rp labs))"
proof -
  let ?ps = "map2 label_probability rp labs"
  let ?sm = "softmax (scale_by (Finite 100) (tensor_of rp))"
  have "length ?sm = length labs"
    using assms(2) by (simp add: softmax_def scale_by_def tensor_of_def)
  moreover have "collect (map2 pick_row ?sm labs) = Inr (map Finite ?ps)"
    unfolding map2_pick [OF assms(3)] by (rule collect_Inr)
  ultimately have p: "pick ?sm labs = Inr (map Finite ?ps)"
    by (simp only: pick_def simp_thms if_False)
  have ne: "?ps \<noteq> []" using assms(1,2) by (cases rp; cases labs) auto
  have len: "length ?ps = length rp" using assms(2) by simp
  have l2: "length (map Finite ?ps) = length rp" using len by simp
  have nz: "real (length rp) \<noteq> 0" using assms(1) by simp
  have "mean (map Finite ?ps) = Finite (sum_list ?ps) / Finite (real (length rp))"
    unfolding mean_def l2 sum_list_map_Finite ..
  also have "\<dots> = Finite (sum_list ?ps / real (length rp))"
    using nz by (simp add: divide_fl_def)
  finally have "mean (map Finite ?ps) = Finite (sum_list ?ps / real (length rp))" .
  then show ?thesis
    by (simp add: accuracy_def and_then_def p mean_single soft_accuracy_def)
qed


subsection \<open>Two runs of four epochs\<close>

lemma set_norm_pair:
  "set_norm \<lparr>n_nodes = 2, edges = [(0, Suc 0), (Suc 0, 0)], ndata = Map.empty\<rparr> = Inr g_pair"
  by (simp add: set_norm_def norm_coefs_def in_degrees_def in_degree_def power_neg_half_def
      ndata_set_def expand_dims_1_def g_pair_def upt_rec numeral_2_eq_2)

lemma layer_zero:
  "GCNLayer_forward (\<lambda>q y. y)
     \<lparr>dense = \<lparr>units = Suc 0, use_bias = True\<rparr>, activation = act, dropout = 1 / 2\<rparr>
     ([[Finite 0]], [Finite 0]) g_pair [[Finite a], [Finite b]]
   = Inr (activate act [[Finite 0], [Finite 0]], g_pair)"
  by (simp add: GCNLayer_forward_def g_pair_def Dense_forward_def dot_def
      and_then_def ndata_get_def mul_def mul_row_def ndata_set_def update_all_copy_src_sum_def
      feat_width_def ndata_pop_def vadd_def activate_def eval_nat_numeral fl_arith)

lemma forward_zero:
  "GCN_forward (\<lambda>i q y. y) m_pair p_zero g_pair [[Finite 1], [Finite 2]]
   = Inr ([[Finite 0], [Finite 0]], g_pair)"
  by (simp add: GCN_forward_def m_pair_def p_zero_def GCN_init_def GCN_calls_def GCNLayer_init_def
      layer_zero and_then_def activate_def relu_def)

lemma recorded_zero:
  "recorded x_still d_pair m_pair g_pair e p_zero = Inr ([Finite 1, Finite 0], g_pair)"
  by (simp add: recorded_def x_still_def d_pair_def forward_zero and_then_def)

lemma epoch_early:
  assumes "e < 3"
  shows "train_epoch x_still d_pair m_pair n e
     \<lparr>params = p_zero, opt = (), g_state = g_pair, dur = [], clock = 0, stdout = out\<rparr>
   = Inr \<lparr>params = p_zero, opt = (), g_state = g_pair, dur = [], clock = 0, stdout = out\<rparr>"
  using assms
  by (simp add: train_epoch_def recorded_zero and_then_def Let_def) (simp add: x_still_def)

lemma epoch_three:
  "train_epoch x_still d_pair m_pair (Suc (Suc 0)) 3
     \<lparr>params = p_zero, opt = (), g_state = g_pair, dur = [], clock = 0, stdout = out\<rparr>
   = Inr \<lparr>params = p_zero, opt = (), g_state = g_pair, dur = [1], clock = 2,
          stdout = out @ [EpochLine 3 (Finite 1) 1 (Some (1 / 500))]\<rparr>"
  by (simp add: train_epoch_def recorded_zero and_then_def Let_def first_def np_mean_def kteps_def)
     (simp add: x_still_def)

lemma loop_four:
  "train_loop x_still d_pair m_pair (Suc (Suc 0)) [0..<4]
     \<lparr>params = p_zero, opt = (), g_state = g_pair, dur = [], clock = 0, stdout = out\<rparr>
   = Inr \<lparr>params = p_zero, opt = (), g_state = g_pair, dur = [1], clock = 2,
          stdout = out @ [EpochLine 3 (Finite 1) 1 (Some (1 / 500))]\<rparr>"
proof -
  have "[0..<4] = [0, 1, 2, 3::nat]" by (simp add: upt_rec)
  then show ?thesis
    by (simp add: epoch_early epoch_three and_then_def)
qed

lemma accuracy_zero: "accuracy [[Finite 0], [Finite 0]] [0, 0] = Inr (Finite 1)"
  using accuracy_closed_form [of "[[0], [0]]" "[0, 0]"]
  by (simp add: tensor_of_def soft_accuracy_def label_probability_def clip_index_def)

lemma trained_four:
  "trained x_still a_four d_pair =
     Inr (m_pair, \<lparr>params = p_zero, opt = (), g_state = g_pair, dur = [1], clock = 2,
          stdout = [EdgesLine 2 1, ParamsLine, EpochLine 3 (Finite 1) 1 (Some (1 / 500))]\<rparr>)"
proof -
  have i: "initialize x_still m p = p_zero" for m p by (simp add: x_still_def p_zero_def)
  have t: "Trainer x_still lr wd = ()" for lr wd by simp
  have m: "GCN_init (feat_width (features d_pair)) (args_n_hidden a_four) (num_labels d_pair)
      (args_n_layers a_four) (Some relu) (args_dropout a_four) (args_normalization a_four) = m_pair"
    by (simp add: m_pair_def d_pair_def a_four_def feat_width_def)
  have a: "args_self_loop a_four = False" "nat (args_n_epochs a_four) = 4"
    by (simp_all add: a_four_def)
  have g: "graph_nodes d_pair = 2" "graph d_pair = [(0, 1), (1, 0)]"
      "features d_pair = [[Finite 1], [Finite 2]]"
     "labels d_pair = [0, 0]" "num_labels d_pair = 1"
    by (simp_all add: d_pair_def)
  show ?thesis
    unfolding trained_def Let_def m i t a
    by (simp add: g set_norm_pair and_then_def loop_four)
qed

lemma main_four:
  "main x_still a_four d_pair =
     Inr ([EdgesLine 2 1, ParamsLine, EpochLine 3 (Finite 1) 1 (Some (1 / 500)),
           AccuracyLine (Finite 1)], Finite 1)"
proof -
  have d: "Dropout x_still EvalPass = (\<lambda>i q y. y)" by (simp add: x_still_def)
  have g: "features d_pair = [[Finite 1], [Finite 2]]" "labels d_pair = [0, 0]"
    by (simp_all add: d_pair_def)
  show ?thesis
    unfolding main_def trained_four
    by (simp add: and_then_def d g forward_zero accuracy_zero)
qed

text \<open>The same run on the graph with a node of in-degree zero.\<close>

lemma set_norm_arrow:
  "set_norm \<lparr>n_nodes = 2, edges = [(0, Suc 0)], ndata = Map.empty\<rparr> = Inr g_arrow_norm"
  by (simp add: set_norm_def norm_coefs_def in_degrees_def in_degree_def power_neg_half_def
      ndata_set_def expand_dims_1_def g_arrow_norm_def g_arrow_def upt_rec numeral_2_eq_2)

lemma layer_arrow:
  "GCNLayer_forward (\<lambda>q y. y)
     \<lparr>dense = \<lparr>units = Suc 0, use_bias = True\<rparr>, activation = act, dropout = 1 / 2\<rparr>
     ([[Finite 0]], [Finite 0]) g_arrow_norm [[a], [b]]
   = Inr (activate act [[NaN], [NaN]], g_arrow_norm)"
proof -
  have k: "fl_times (fl_plus (fl_plus (fl_times a (Finite 0)) (Finite 0)) (Finite 0)) PosInf
      = NaN"
    by (cases a) simp_all
  show ?thesis
    by (simp add: GCNLayer_forward_def g_arrow_norm_def g_arrow_def Dense_forward_def dot_def
      and_then_def ndata_get_def mul_def mul_row_def ndata_set_def update_all_copy_src_sum_def
      feat_width_def ndata_pop_def vadd_def activate_def eval_nat_numeral fl_arith k)
qed

lemma forward_arrow:
  "GCN_forward (\<lambda>i q y. y) m_pair p_zero g_arrow_norm [[Finite 1], [Finite 2]]
   = Inr ([[NaN], [NaN]], g_arrow_norm)"
  by (simp add: GCN_forward_def m_pair_def p_zero_def GCN_init_def GCN_calls_def GCNLayer_init_def
      layer_arrow and_then_def activate_def relu_def)

lemma recorded_arrow:
  "recorded x_still d_arrow m_pair g_arrow_norm e p_zero = Inr ([Finite 1, Finite 0], g_arrow_norm)"
  by (simp add: recorded_def x_still_def d_arrow_def d_pair_def forward_arrow and_then_def)

lemma epoch_early_arrow:
  assumes "e < 3"
  shows "train_epoch x_still d_arrow m_pair n e
     \<lparr>params = p_zero, opt = (), g_state = g_arrow_norm, dur = [], clock = 0, stdout = out\<rparr>
   = Inr \<lparr>params = p_zero, opt = (), g_state = g_arrow_norm, dur = [], clock = 0,
          stdout = out\<rparr>"
  using assms
  by (simp add: train_epoch_def recorded_arrow and_then_def Let_def) (simp add: x_still_def)

lemma epoch_three_arrow:
  "train_epoch x_still d_arrow m_pair (Suc 0) 3
     \<lparr>params = p_zero, opt = (), g_state = g_arrow_norm, dur = [], clock = 0, stdout = out\<rparr>
   = Inr \<lparr>params = p_zero, opt = (), g_state = g_arrow_norm, dur = [1], clock = 2,
          stdout = out @ [EpochLine 3 (Finite 1) 1 (Some (1 / 1000))]\<rparr>"
  by (simp add: train_epoch_def recorded_arrow and_then_def Let_def first_def np_mean_def kteps_def)
     (simp add: x_still_def)

lemma loop_four_arrow:
  "train_loop x_still d_arrow m_pair (Suc 0) [0..<4]
     \<lparr>params = p_zero, opt = (), g_state = g_arrow_norm, dur = [], clock = 0, stdout = out\<rparr>
   = Inr \<lparr>params = p_zero, opt = (), g_state = g_arrow_norm, dur = [1], clock = 2,
          stdout = out @ [EpochLine 3 (Finite 1) 1 (Some (1 / 1000))]\<rparr>"
proof -
  have "[0..<4] = [0, 1, 2, 3::nat]" by (simp add: upt_rec)
  then show ?thesis
    by (simp add: epoch_early_arrow epoch_three_arrow and_then_def)
qed

lemma accuracy_nan: "accuracy [[NaN], [NaN]] [0, 0] = Inr NaN"
  by (simp add: accuracy_def pick_def softmax_def scale_by_def softmax_row_def row_max_def
      pick_row_def clip_index_def mean_def and_then_def fl_arith)

lemma trained_arrow:
  "trained x_still a_four d_arrow =
     Inr (m_pair, \<lparr>params = p_zero, opt = (), g_state = g_arrow_norm, dur = [1], clock = 2,
          stdout = [EdgesLine 1 1, ParamsLine, EpochLine 3 (Finite 1) 1 (Some (1 / 1000))]\<rparr>)"
proof -
  have i: "initialize x_still m p = p_zero" for m p by (simp add: x_still_def p_zero_def)
  have t: "Trainer x_still lr wd = ()" for lr wd by simp
  have m: "GCN_init (feat_width (features d_arrow)) (args_n_hidden a_four) (num_labels d_arrow)
      (args_n_layers a_four) (Some relu) (args_dropout a_four) (args_normalization a_four) = m_pair"
    by (simp add: m_pair_def d_arrow_def d_pair_def a_four_def feat_width_def)
  have a: "args_self_loop a_four = False" "nat (args_n_epochs a_four) = 4"
    by (simp_all add: a_four_def)
  have g: "graph_nodes d_arrow = 2" "graph d_arrow = [(0, 1)]"
      "features d_arrow = [[Finite 1], [Finite 2]]"
     "labels d_arrow = [0, 0]" "num_labels d_arrow = 1"
    by (simp_all add: d_arrow_def d_pair_def)
  show ?thesis
    unfolding trained_def Let_def m i t a
    by (simp add: g set_norm_arrow and_then_def loop_four_arrow)
qed

lemma main_arrow:
  "main x_still a_four d_arrow =
     Inr ([EdgesLine 1 1, ParamsLine, EpochLine 3 (Finite 1) 1 (Some (1 / 1000)),
           AccuracyLine NaN], NaN)"
proof -
  have d: "Dropout x_still EvalPass = (\<lambda>i q y. y)" by (simp add: x_still_def)
  have g: "features d_arrow = [[Finite 1], [Finite 2]]" "labels d_arrow = [0, 0]"
    by (simp_all add: d_arrow_def d_pair_def)
  show ?thesis
    unfolding main_def trained_arrow
    by (simp add: and_then_def d g forward_arrow accuracy_nan)
qed

subsection \<open>The chain of layers\<close>

lemma GCN_calls_length:
  "1 \<le> n_layers \<Longrightarrow> length (GCN_calls i h c n_layers act p nz) = nat n_layers + 1"
  by (simp add: GCN_calls_def)

lemma GCN_calls_nth:
  assumes "1 \<le> n_layers" and "k \<le> nat n_layers"
  shows "GCN_calls i h c n_layers act p nz ! k =
     (if k = 0 then
        \<lparr>arg_in_feats = i, arg_out_feats = h, arg_activation = act, arg_dropout = p,
         arg_bias = True\<rparr>
      else if k < nat n_layers then
        \<lparr>arg_in_feats = h, arg_out_feats = h, arg_activation = act, arg_dropout = p,
         arg_bias = True\<rparr>
      else
        \<lparr>arg_in_feats = h, arg_out_feats = c, arg_activation = None, arg_dropout = p,
         arg_bias = True\<rparr>)"
  using assms
  by (cases k) (auto simp: GCN_calls_def nth_append nth_Cons')

lemma GCN_init_nth:
  assumes "1 \<le> n_layers" and "k \<le> nat n_layers"
  shows "GCN_init i h c n_layers act p nz ! k =
           GCNLayer_init (GCN_calls i h c n_layers act p nz ! k)"
  using assms by (simp add: GCN_init_def GCN_calls_length)

text \<open>A layer without activation returns rows of as many entries as its dense transform has units.\<close>

lemma Dense_forward_shape:
  assumes "Dense_forward d p x = Inr z"
  shows "shape z = replicate (length x) (units d)"
proof -
  obtain W b where p: "p = (W, b)" by (cases p)
  from assms p have lw: "length W = units d" and lb: "use_bias d \<longrightarrow> length b = units d"
    and z: "z = (if use_bias d
                 then map (\<lambda>row. map (\<lambda>(w, c). dot row w + c) (zip W b)) x
                 else map (\<lambda>row. map (\<lambda>w. dot row w) W) x)"
    by (auto simp: Dense_forward_def split: if_splits)
  show ?thesis
    using lw lb unfolding z shape_def
    by (auto intro!: nth_equalityI)
qed

lemma collect_rows:
  assumes "collect rs = Inr xs"
  shows "length xs = length rs \<and> (\<forall>i < length rs. rs ! i = Inr (xs ! i))"
proof -
  from assms have "rs = map Inr xs" by (rule collect_Inr_iff)
  then show ?thesis by simp
qed

lemma mul_column_shape:
  assumes "mul a (expand_dims_1 cs) = Inr r" and "shape a = replicate (length a) w"
  shows "shape r = replicate (length r) w"
proof -
  have wa: "\<And>row. row \<in> set a \<Longrightarrow> length row = w"
    using assms(2) by (metis in_set_conv_nth length_map nth_map nth_replicate shape_def)
  have sc: "\<And>row c. mul_row row [c] = Inr (map (\<lambda>e. e * c) row)" by (rule mul_row_single)
  let ?b = "expand_dims_1 cs"
  have rows: "\<And>y. y \<in> set r \<Longrightarrow> length y = w"
  proof -
    fix y assume y: "y \<in> set r"
    then obtain i where i: "i < length r" "r ! i = y" by (auto simp: in_set_conv_nth)
    consider (eq) "length a = length ?b"
      | (b1) "length a \<noteq> length ?b" "length ?b = 1"
      | (a1) "length a \<noteq> length ?b" "length ?b \<noteq> 1" "length a = 1"
      using assms(1) by (auto simp: mul_def split: if_splits)
    then show "length y = w"
    proof cases
      case eq
      then have c: "collect (map2 mul_row a ?b) = Inr r" using assms(1) by (simp add: mul_def)
      from collect_rows [OF c] i eq
      have "mul_row (a ! i) (?b ! i) = Inr y" by simp
      moreover have "?b ! i = [cs ! i]" using i eq collect_rows [OF c] by (simp add: expand_dims_1_def)
      ultimately have "y = map (\<lambda>e. e * cs ! i) (a ! i)" by (simp add: sc)
      moreover have "a ! i \<in> set a" using i eq collect_rows [OF c] by simp
      ultimately show ?thesis using wa by simp
    next
      case b1
      then have c: "collect (map (\<lambda>r. mul_row r (hd ?b)) a) = Inr r"
        using assms(1) by (simp add: mul_def)
      from b1 obtain c0 where "hd ?b = [c0]" by (cases cs) (auto simp: expand_dims_1_def)
      with collect_rows [OF c] i have "y = map (\<lambda>e. e * c0) (a ! i)" by (simp add: sc)
      moreover have "a ! i \<in> set a" using i collect_rows [OF c] by simp
      ultimately show ?thesis using wa by simp
    next
      case a1
      then have c: "collect (map (\<lambda>r. mul_row (hd a) r) ?b) = Inr r"
        using assms(1) by (simp add: mul_def)
      from collect_rows [OF c] i have "mul_row (hd a) (?b ! i) = Inr y" by simp
      moreover have "?b ! i = [cs ! i]" using i collect_rows [OF c] by (simp add: expand_dims_1_def)
      ultimately have "y = map (\<lambda>e. e * cs ! i) (hd a)" by (simp add: sc)
      moreover have "hd a \<in> set a" using a1 by (cases a) auto
      ultimately show ?thesis using wa by simp
    qed
  qed
  show ?thesis unfolding shape_def
    using rows by (auto intro!: nth_equalityI)
qed

lemma shape_aggregate: "shape (aggregate es n w x) = replicate n w"
  by (auto simp: aggregate_def shape_def intro!: nth_equalityI)

lemma forward_shape:
  assumes f: "GCNLayer_forward dropf l p g h = Inr (out, g')"
    and act: "activation l = None"
    and wf: "wf_graph g"
    and norm: "ndata g ''norm'' = Some (expand_dims_1 cs)" "length cs = n_nodes g"
  shows "shape out = replicate (n_nodes g) (units (dense l))"
proof -
  let ?x = "dropped dropf (dropout l) h"
  let ?b = "expand_dims_1 cs"
  have h1: "(if dropout l \<noteq> 0 then dropf (dropout l) h else h) = ?x"
    by (simp add: dropped_def)
  have n0: "ndata_get g ''norm'' = Inr ?b" using norm(1) by (simp add: ndata_get_def)
  obtain z where d: "Dense_forward (dense l) p ?x = Inr z"
  proof (cases "Dense_forward (dense l) p ?x")
    case (Inl e)
    then have "GCNLayer_forward dropf l p g h = Inl e"
      unfolding GCNLayer_forward_def Let_def h1 by (simp add: and_then_def)
    with f show ?thesis by simp
  next
    case (Inr z)
    then show ?thesis using that by simp
  qed
  obtain h3 where m1: "mul z ?b = Inr h3"
  proof (cases "mul z ?b")
    case (Inl e)
    then have "GCNLayer_forward dropf l p g h = Inl e"
      unfolding GCNLayer_forward_def Let_def h1 by (simp add: and_then_def d n0)
    with f show ?thesis by simp
  next
    case (Inr h3)
    then show ?thesis using that by simp
  qed
  have len3: "length h3 = n_nodes g"
  proof (rule ccontr)
    assume "length h3 \<noteq> n_nodes g"
    then have "ndata_set g ''h'' h3 = Inl DGLError" by (simp add: ndata_set_def)
    then have "GCNLayer_forward dropf l p g h = Inl DGLError"
      unfolding GCNLayer_forward_def Let_def h1 by (simp add: and_then_def d n0 m1)
    with f show False by simp
  qed
  have lz: "length z = length ?x"
    using Dense_forward_shape [OF d] by (metis length_map length_replicate shape_def)
  have shz: "shape z = replicate (length z) (units (dense l))"
    using Dense_forward_shape [OF d] lz by simp
  have "shape h3 = replicate (length h3) (units (dense l))"
    using m1 shz by (rule mul_column_shape)
  then have sh3: "shape h3 = replicate (n_nodes g) (units (dense l))" using len3 by simp
  let ?g1 = "g\<lparr>ndata := (ndata g)(''h'' \<mapsto> h3)\<rparr>"
  let ?agg = "aggregate (edges g) (n_nodes g) (units (dense l)) h3"
  let ?g2 = "g\<lparr>ndata := (ndata g)(''h'' \<mapsto> ?agg)\<rparr>"
  let ?g3 = "g\<lparr>ndata := (ndata g)(''h'' := None)\<rparr>"
  have s1: "ndata_set g ''h'' h3 = Inr ?g1" using len3 by (simp add: ndata_set_def)
  have u: "update_all_copy_src_sum ''h'' ''h'' ?g1 = Inr ?g2"
    using update_all_aggregate [of ?g1 "''h''" h3 "units (dense l)" "''h''"] wf len3 sh3
    by (simp add: wf_graph_def)
  have pp: "ndata_pop ?g2 ''h'' = Inr (?agg, ?g3)" by (simp add: ndata_pop_def)
  have n3: "ndata_get ?g3 ''norm'' = Inr ?b" using norm(1) by (simp add: ndata_get_def)
  have m2: "mul ?agg ?b = Inr (norm_mul cs ?agg)"
    using norm(2) by (intro mul_column) (simp add: length_aggregate)
  have "GCNLayer_forward dropf l p g h = Inr (norm_mul cs ?agg, ?g3)"
    unfolding GCNLayer_forward_def Let_def h1
    by (simp add: and_then_def d n0 m1 s1 u pp n3 m2 act del: fun_upd_apply)
  with f have "out = norm_mul cs ?agg" by simp
  then show ?thesis
    using shape_norm_mul [of ?agg cs] norm(2) by (simp add: length_aggregate shape_aggregate)
qed

lemma forward_keeps_graph:
  assumes "GCNLayer_forward dropf l p g h = Inr (out, g')"
  shows "n_nodes g' = n_nodes g \<and> edges g' = edges g \<and> ndata g' ''norm'' = ndata g ''norm''"
  using assms
  by (auto simp: GCNLayer_forward_def Let_def and_then_def ndata_get_def ndata_set_def
      update_all_copy_src_sum_def ndata_pop_def split: sum.splits option.splits if_splits prod.splits)

lemma GCN_forward_last:
  assumes "GCN_forward_from i dropf (ls @ [l]) ps g h = Inr (out, g')"
  shows "\<exists>p g1 h1. GCNLayer_forward (dropf (i + length ls)) l p g1 h1 = Inr (out, g')
           \<and> n_nodes g1 = n_nodes g \<and> edges g1 = edges g
           \<and> ndata g1 ''norm'' = ndata g ''norm''"
  using assms
proof (induction ls arbitrary: i ps g h)
  case Nil
  then show ?case
    by (cases ps) (auto simp: and_then_def split: sum.splits prod.splits)
next
  case (Cons a ls)
  from Cons.prems obtain p ps' where ps: "ps = p # ps'" by (cases ps) auto
  from Cons.prems ps obtain h2 g2 where
    a: "GCNLayer_forward (dropf i) a p g h = Inr (h2, g2)"
    and r: "GCN_forward_from (Suc i) dropf (ls @ [l]) ps' g2 h2 = Inr (out, g')"
    by (auto simp: and_then_def split: sum.splits prod.splits)
  from Cons.IH [OF r] forward_keeps_graph [OF a]
  show ?case by auto
qed

lemma model_output_width:
  assumes "GCN_forward dropf (GCN_init i nh c n act q nz) ps g x = Inr (out, g')"
    and "wf_graph g" and "ndata g ''norm'' = Some (expand_dims_1 cs)" and "length cs = n_nodes g"
  shows "shape out = replicate (n_nodes g) c"
proof -
  let ?ls = "map GCNLayer_init
      (\<lparr>arg_in_feats = i, arg_out_feats = nh, arg_activation = act, arg_dropout = q, arg_bias = True\<rparr>
       # replicate (nat (n - 1))
         \<lparr>arg_in_feats = nh, arg_out_feats = nh, arg_activation = act, arg_dropout = q, arg_bias = True\<rparr>)"
  let ?l = "GCNLayer_init
      \<lparr>arg_in_feats = nh, arg_out_feats = c, arg_activation = None, arg_dropout = q, arg_bias = True\<rparr>"
  have m: "GCN_init i nh c n act q nz = ?ls @ [?l]"
    by (simp add: GCN_init_def GCN_calls_def)
  from assms(1) have "GCN_forward_from 0 dropf (?ls @ [?l]) ps g x = Inr (out, g')"
    unfolding GCN_forward_def m .
  from GCN_forward_last [OF this] obtain p g1 h1 where
    f: "GCNLayer_forward (dropf (0 + length ?ls)) ?l p g1 h1 = Inr (out, g')"
    and k: "n_nodes g1 = n_nodes g" "edges g1 = edges g" "ndata g1 ''norm'' = ndata g ''norm''"
    by blast
  have "shape out = replicate (n_nodes g1) (units (dense ?l))"
    using f
  proof (rule forward_shape)
    show "activation ?l = None" by (simp add: GCNLayer_init_def)
    show "wf_graph g1" using assms(2) k by (simp add: wf_graph_def)
    show "ndata g1 ''norm'' = Some (expand_dims_1 cs)" using assms(3) k by simp
    show "length cs = n_nodes g1" using assms(4) k by simp
  qed
  then show ?thesis using k by (simp add: GCNLayer_init_def)
qed

text \<open>
  Claim C6: for every layer count \<open>n_layers \<ge> 1\<close> the model is an ordered chain of
  \<open>n_layers + 1\<close> layers: the input layer (\<open>in_feats\<close> to \<open>n_hidden\<close>), \<open>n_layers - 1\<close>
  hidden layers (\<open>n_hidden\<close> to \<open>n_hidden\<close>) and the output layer (\<open>n_hidden\<close> to
  \<open>n_classes\<close>) with no activation. The output width of each layer is the input width
  of the next one, and the width of the model's output is \<open>n_classes\<close>: the last layer
  has \<open>n_classes\<close> units, and every forward pass that returns gives each node a row of
  \<open>n_classes\<close> entries.
\<close>

theorem GCN_chain:
  assumes "1 \<le> n_layers"
  shows "length (GCN_init i h c n_layers act p nz) = nat n_layers + 1
    \<and> length (GCN_calls i h c n_layers act p nz) = nat n_layers + 1
    \<and> (\<forall>k \<le> nat n_layers.
          GCN_init i h c n_layers act p nz ! k
            = GCNLayer_init (GCN_calls i h c n_layers act p nz ! k)
        \<and> arg_in_feats (GCN_calls i h c n_layers act p nz ! k) = (if k = 0 then i else h)
        \<and> arg_out_feats (GCN_calls i h c n_layers act p nz ! k) = (if k < nat n_layers then h else c)
        \<and> units (dense (GCN_init i h c n_layers act p nz ! k)) = (if k < nat n_layers then h else c)
        \<and> activation (GCN_init i h c n_layers act p nz ! k) = (if k < nat n_layers then act else None))
    \<and> (\<forall>k < nat n_layers.
          arg_out_feats (GCN_calls i h c n_layers act p nz ! k)
            = arg_in_feats (GCN_calls i h c n_layers act p nz ! Suc k))
    \<and> units (dense (last (GCN_init i h c n_layers act p nz))) = c
    \<and> activation (last (GCN_init i h c n_layers act p nz)) = None
    \<and> (\<forall>dropf ps g x out g' cs.
          wf_graph g \<and> ndata g ''norm'' = Some (expand_dims_1 cs) \<and> length cs = n_nodes g
          \<and> GCN_forward dropf (GCN_init i h c n_layers act p nz) ps g x = Inr (out, g')
          \<longrightarrow> shape out = replicate (n_nodes g) c)"
proof -
  have fw: "\<And>dropf ps g x out g' cs.
          wf_graph g \<and> ndata g ''norm'' = Some (expand_dims_1 cs) \<and> length cs = n_nodes g
          \<and> GCN_forward dropf (GCN_init i h c n_layers act p nz) ps g x = Inr (out, g')
          \<Longrightarrow> shape out = replicate (n_nodes g) c"
    using model_output_width by blast
  have len: "length (GCN_calls i h c n_layers act p nz) = nat n_layers + 1"
    using assms by (rule GCN_calls_length)
  have nth: "\<And>k. k \<le> nat n_layers \<Longrightarrow>
      GCN_init i h c n_layers act p nz ! k
            = GCNLayer_init (GCN_calls i h c n_layers act p nz ! k)
        \<and> arg_in_feats (GCN_calls i h c n_layers act p nz ! k) = (if k = 0 then i else h)
        \<and> arg_out_feats (GCN_calls i h c n_layers act p nz ! k) = (if k < nat n_layers then h else c)
        \<and> units (dense (GCN_init i h c n_layers act p nz ! k)) = (if k < nat n_layers then h else c)
        \<and> activation (GCN_init i h c n_layers act p nz ! k) = (if k < nat n_layers then act else None)"
    using assms by (simp add: GCN_init_nth GCN_calls_nth GCNLayer_init_def)
  have chain: "\<And>k. k < nat n_layers \<Longrightarrow>
      arg_out_feats (GCN_calls i h c n_layers act p nz ! k)
            = arg_in_feats (GCN_calls i h c n_layers act p nz ! Suc k)"
    using assms by (simp add: GCN_calls_nth)
  have lst: "units (dense (last (GCN_init i h c n_layers act p nz))) = c
    \<and> activation (last (GCN_init i h c n_layers act p nz)) = None"
    by (simp add: GCN_init_def GCN_calls_def GCNLayer_init_def)
  have "length (GCN_init i h c n_layers act p nz) = nat n_layers + 1"
    using len by (simp add: GCN_init_def)
  then show ?thesis
    using len nth chain lst fw by blast
qed

theorem GCN_chain_witness:
  "(1::int) \<le> 2 \<and> length (GCN_init 3 4 2 2 (Some relu) (1/2) None) = 3
   \<and> map arg_in_feats (GCN_calls 3 4 2 2 (Some relu) (1/2) None) = [3, 4, 4]
   \<and> map arg_out_feats (GCN_calls 3 4 2 2 (Some relu) (1/2) None) = [4, 4, 2]
   \<and> units (dense (last (GCN_init 3 4 2 2 (Some relu) (1/2) None))) = 2
   \<and> activation (last (GCN_init 3 4 2 2 (Some relu) (1/2) None)) = None
   \<and> wf_graph g_pair \<and> ndata g_pair ''norm'' = Some (expand_dims_1 [Finite 1, Finite 1])
   \<and> length [Finite 1, Finite 1] = n_nodes g_pair
   \<and> GCN_forward (\<lambda>i q y. y) (GCN_init 1 1 1 1 (Some relu) (1 / 2) None) p_zero g_pair
         [[Finite 1], [Finite 2]] = Inr ([[Finite 0], [Finite 0]], g_pair)
   \<and> shape [[Finite 0], [Finite 0]] = replicate (n_nodes g_pair) 1"
proof -
  have a: "(1::int) \<le> 2 \<and> length (GCN_init 3 4 2 2 (Some relu) (1/2) None) = 3
   \<and> map arg_in_feats (GCN_calls 3 4 2 2 (Some relu) (1/2) None) = [3, 4, 4]
   \<and> map arg_out_feats (GCN_calls 3 4 2 2 (Some relu) (1/2) None) = [4, 4, 2]
   \<and> units (dense (last (GCN_init 3 4 2 2 (Some relu) (1/2) None))) = 2
   \<and> activation (last (GCN_init 3 4 2 2 (Some relu) (1/2) None)) = None"
    using GCN_chain [of 2 3 4 2 "Some relu" "1/2" None]
    by (simp add: GCN_calls_def GCN_init_def eval_nat_numeral)
  have wf: "wf_graph g_pair" by (simp add: wf_graph_def g_pair_def)
  have nm: "ndata g_pair ''norm'' = Some (expand_dims_1 [Finite 1, Finite 1])"
    by (simp add: g_pair_def expand_dims_1_def)
  have ln: "length [Finite 1, Finite 1] = n_nodes g_pair" by (simp add: g_pair_def)
  have f: "GCN_forward (\<lambda>i q y. y) (GCN_init 1 1 1 1 (Some relu) (1 / 2) None) p_zero g_pair
         [[Finite 1], [Finite 2]] = Inr ([[Finite 0], [Finite 0]], g_pair)"
    using forward_zero by (simp add: m_pair_def)
  have "shape [[Finite 0], [Finite 0]] = replicate (n_nodes g_pair) 1"
    using GCN_chain [of 1 1 1 1 "Some relu" "1 / 2" None] wf nm ln f by blast
  then show ?thesis using a wf nm ln f by blast
qed

subsection \<open>The log of the training loop\<close>

lemma logged_epochs_append:
  "logged_epochs (a @ b) = logged_epochs a @ logged_epochs b"
  by (simp add: logged_epochs_def)

lemma train_epoch_line:
  assumes "train_epoch x d m n e st = Inr st'"
  shows "\<exists>loss g'. recorded x d m (g_state st) e (params st) = Inr (loss, g')
     \<and> (if 3 \<le> e
         then \<exists>l0. first loss = Inr l0
                \<and> dur st' = dur st @ [time x (Suc (clock st)) - time x (clock st)]
                \<and> stdout st' = stdout st @
                     [EpochLine e l0 (np_mean (dur st')) (kteps n (np_mean (dur st')))]
         else stdout st' = stdout st)"
  using assms
  by (auto simp: train_epoch_def Let_def and_then_def split: sum.splits prod.splits if_splits)

lemma train_epoch_logged:
  assumes "train_epoch x d m n e st = Inr st'"
  shows "logged_epochs (stdout st') = logged_epochs (stdout st) @ (if 3 \<le> e then [e] else [])"
  using train_epoch_line [OF assms]
  by (auto simp: logged_epochs_append logged_epochs_def split: if_splits)

lemma train_loop_logged:
  assumes "train_loop x d m n es st = Inr st'"
  shows "logged_epochs (stdout st') = logged_epochs (stdout st) @ filter (\<lambda>e. 3 \<le> e) es"
  using assms
proof (induction es arbitrary: st)
  case Nil
  then show ?case by simp
next
  case (Cons e es)
  from Cons.prems obtain st1 where s1: "train_epoch x d m n e st = Inr st1"
    and s2: "train_loop x d m n es st1 = Inr st'"
    by (auto simp: and_then_def split: sum.splits)
  show ?case
    using Cons.IH [OF s2] train_epoch_logged [OF s1] by simp
qed

lemma filter_ge_upt: "filter (\<lambda>e. 3 \<le> e) [0..<n] = [3..<n]"
proof (induction n)
  case 0
  then show ?case by simp
next
  case (Suc n)
  then show ?case by (cases "3 \<le> n") (simp_all add: upt_rec [of 3 "Suc n"])
qed

lemma trained_returns:
  assumes "trained x a d = Inr (model, st)"
  obtains st0 n_edges where
    "stdout st0 = [EdgesLine n_edges (num_labels d), ParamsLine]"
    and "train_loop x d model n_edges [0..<nat (args_n_epochs a)] st0 = Inr st"
proof -
  define es where "es = (if args_self_loop a
                then add_edges_from (graph d) (self_loops (graph_nodes d))
                else graph d)"
  define md where "md = GCN_init (feat_width (features d)) (args_n_hidden a) (num_labels d)
     (args_n_layers a) (Some relu) (args_dropout a) (args_normalization a)"
  define st0 where "st0 = (\<lambda>g. \<lparr>params = initialize x md (feat_width (features d)),
                 opt = Trainer x (args_lr a) (args_weight_decay a),
                 g_state = g, dur = [], clock = 0,
                 stdout = [EdgesLine (length es) (num_labels d)] @ [ParamsLine]\<rparr>)"
  let ?g0 = "\<lparr>n_nodes = graph_nodes d, edges = es, ndata = Map.empty\<rparr>"
  let ?loop = "\<lambda>g. train_loop x d md (length es) [0..<nat (args_n_epochs a)] (st0 g)"
  have t: "trained x a d =
      and_then (set_norm ?g0) (\<lambda>g. and_then (?loop g) (\<lambda>st. Inr (md, st)))"
    unfolding trained_def Let_def es_def md_def st0_def ..
  obtain g where g: "set_norm ?g0 = Inr g"
  proof (cases "set_norm ?g0")
    case (Inl e)
    then have "trained x a d = Inl e" unfolding t by (simp add: and_then_def)
    with assms show ?thesis by simp
  next
    case (Inr g)
    then show ?thesis using that by simp
  qed
  obtain s where s: "?loop g = Inr s"
  proof (cases "?loop g")
    case (Inl e)
    then have "trained x a d = Inl e" unfolding t by (simp add: and_then_def g)
    with assms show ?thesis by simp
  next
    case (Inr s)
    then show ?thesis using that by simp
  qed
  have "trained x a d = Inr (md, s)" unfolding t by (simp add: and_then_def g s)
  with assms have "model = md" "st = s" by simp_all
  moreover have "stdout (st0 g) = [EdgesLine (length es) (num_labels d), ParamsLine]"
    by (simp add: st0_def)
  ultimately show ?thesis using that s by blast
qed

lemma main_returns:
  assumes "main x a d = Inr (out, acc)"
  shows "\<exists>model st pred g'. trained x a d = Inr (model, st)
     \<and> GCN_forward (Dropout x EvalPass) model (params st) (g_state st) (features d)
         = Inr (pred, g')
     \<and> accuracy pred (labels d) = Inr acc
     \<and> out = stdout st @ [AccuracyLine acc]"
proof -
  obtain model st where tr: "trained x a d = Inr (model, st)"
  proof (cases "trained x a d")
    case (Inl e)
    then have "main x a d = Inl e" by (simp add: main_def and_then_def)
    with assms show ?thesis by simp
  next
    case (Inr ms)
    then show ?thesis using that by (cases ms) simp
  qed
  let ?f = "GCN_forward (Dropout x EvalPass) model (params st) (g_state st) (features d)"
  obtain pred g' where fw: "?f = Inr (pred, g')"
  proof (cases ?f)
    case (Inl e)
    then have "main x a d = Inl e" by (simp add: main_def and_then_def tr)
    with assms show ?thesis by simp
  next
    case (Inr ps)
    then show ?thesis using that by (cases ps) simp
  qed
  obtain v where ac: "accuracy pred (labels d) = Inr v"
  proof (cases "accuracy pred (labels d)")
    case (Inl e)
    then have "main x a d = Inl e" by (simp add: main_def and_then_def tr fw)
    with assms show ?thesis by simp
  next
    case (Inr v)
    then show ?thesis using that by simp
  qed
  have "main x a d = Inr (stdout st @ [AccuracyLine v], v)"
    by (simp add: main_def and_then_def tr fw ac)
  with assms have "out = stdout st @ [AccuracyLine v]" "acc = v" by auto
  with tr fw ac show ?thesis by blast
qed

text \<open>
  Claim C4, as the spec states it: every epoch prints a log line. It fails on the code:
  the line is printed under \<^verbatim>\<open>if epoch >= 3\<close>. A run of four epochs prints one epoch
  line, that of epoch 3.
\<close>

theorem first_epochs_not_logged:
  "args_n_epochs a_four = 4
   \<and> main x_still a_four d_pair =
       Inr ([EdgesLine 2 1, ParamsLine, EpochLine 3 (Finite 1) 1 (Some (1 / 500)), AccuracyLine (Finite 1)], Finite 1)
   \<and> logged_epochs [EdgesLine 2 1, ParamsLine, EpochLine 3 (Finite 1) 1 (Some (1 / 500)), AccuracyLine (Finite 1)]
       = [3]"
proof (intro conjI)
  show "args_n_epochs a_four = 4" by (simp add: a_four_def)
  show "main x_still a_four d_pair =
       Inr ([EdgesLine 2 1, ParamsLine, EpochLine 3 (Finite 1) 1 (Some (1 / 500)), AccuracyLine (Finite 1)], Finite 1)"
    by (rule main_four)
  show "logged_epochs [EdgesLine 2 1, ParamsLine, EpochLine 3 (Finite 1) 1 (Some (1 / 500)), AccuracyLine (Finite 1)]
       = [3]"
    by (simp add: logged_epochs_def)
qed

text \<open>
  Claim C4, amended: a run that completes prints one log line for every epoch from
  epoch 3 on, in order, and none for the epochs 0, 1 and 2. The line of an epoch holds
  the epoch's number, the first entry of the loss of that epoch, the mean of the
  durations of the epochs timed so far, and the number of edges divided by that mean and
  by 1000.
\<close>

theorem log_from_fourth_epoch:
  "(main x a d = Inr (out, acc) \<longrightarrow> logged_epochs out = [3..<nat (args_n_epochs a)])
   \<and> (train_epoch x d m n e st = Inr st' \<longrightarrow>
        (\<exists>loss g'. recorded x d m (g_state st) e (params st) = Inr (loss, g')
           \<and> (if 3 \<le> e
               then \<exists>l0. first loss = Inr l0
                      \<and> dur st' = dur st @ [time x (Suc (clock st)) - time x (clock st)]
                      \<and> stdout st' = stdout st @
                           [EpochLine e l0 (np_mean (dur st')) (kteps n (np_mean (dur st')))]
               else stdout st' = stdout st)))"
proof (intro conjI impI)
  assume "train_epoch x d m n e st = Inr st'"
  then show "\<exists>loss g'. recorded x d m (g_state st) e (params st) = Inr (loss, g')
           \<and> (if 3 \<le> e
               then \<exists>l0. first loss = Inr l0
                      \<and> dur st' = dur st @ [time x (Suc (clock st)) - time x (clock st)]
                      \<and> stdout st' = stdout st @
                           [EpochLine e l0 (np_mean (dur st')) (kteps n (np_mean (dur st')))]
               else stdout st' = stdout st)"
    by (rule train_epoch_line)
next
  assume "main x a d = Inr (out, acc)"
  from main_returns [OF this] obtain model st where
    tr: "trained x a d = Inr (model, st)" and out: "out = stdout st @ [AccuracyLine acc]"
    by blast
  from tr obtain st0 n_edges where
    st0: "stdout st0 = [EdgesLine n_edges (num_labels d), ParamsLine]"
    and loop: "train_loop x d model n_edges [0..<nat (args_n_epochs a)] st0 = Inr st"
    by (rule trained_returns)
  from train_loop_logged [OF loop] st0 out
  show "logged_epochs out = [3..<nat (args_n_epochs a)]"
    by (simp add: logged_epochs_append filter_ge_upt) (simp add: logged_epochs_def)
qed

theorem log_from_fourth_epoch_witness:
  "main x_still a_four d_pair =
       Inr ([EdgesLine 2 1, ParamsLine, EpochLine 3 (Finite 1) 1 (Some (1 / 500)), AccuracyLine (Finite 1)], Finite 1)
   \<and> logged_epochs [EdgesLine 2 1, ParamsLine, EpochLine 3 (Finite 1) 1 (Some (1 / 500)), AccuracyLine (Finite 1)]
       = [3..<nat (args_n_epochs a_four)]
   \<and> train_epoch x_still d_pair m_pair (Suc (Suc 0)) 3
        \<lparr>params = p_zero, opt = (), g_state = g_pair, dur = [], clock = 0, stdout = []\<rparr>
      = Inr \<lparr>params = p_zero, opt = (), g_state = g_pair, dur = [1], clock = 2,
             stdout = [EpochLine 3 (Finite 1) 1 (Some (1 / 500))]\<rparr>
   \<and> recorded x_still d_pair m_pair g_pair 3 p_zero = Inr ([Finite 1, Finite 0], g_pair)"
proof -
  let ?out = "[EdgesLine 2 1, ParamsLine, EpochLine 3 (Finite 1) 1 (Some (1 / 500)), AccuracyLine (Finite 1)]"
  let ?s0 = "\<lparr>params = p_zero, opt = (), g_state = g_pair, dur = [], clock = 0,
               stdout = []\<rparr> :: unit train_state"
  let ?s1 = "\<lparr>params = p_zero, opt = (), g_state = g_pair, dur = [1], clock = 2,
               stdout = [EpochLine 3 (Finite 1) 1 (Some (1 / 500))]\<rparr> :: unit train_state"
  have m: "main x_still a_four d_pair = Inr (?out, Finite 1)" by (rule main_four)
  have e: "train_epoch x_still d_pair m_pair (Suc (Suc 0)) 3 ?s0 = Inr ?s1"
    using epoch_three [of "[]"] by simp
  have r: "recorded x_still d_pair m_pair g_pair 3 p_zero = Inr ([Finite 1, Finite 0], g_pair)"
    by (rule recorded_zero)
  have "logged_epochs ?out = [3..<nat (args_n_epochs a_four)]"
    using log_from_fourth_epoch [of x_still a_four d_pair ?out "Finite 1" m_pair "Suc (Suc 0)" 3 ?s0 ?s1] m
    by blast
  then show ?thesis using m e r by blast
qed

subsection \<open>The accuracy that main returns\<close>




text \<open>
  Claim C8, as the spec states it: the accuracy that \<open>main\<close> returns always lies between
  0 and 1. It fails on the code: nothing checks the coefficients, and on the graph with
  the single edge from node 0 to node 1 the coefficient of node 0 is infinite, its row
  after the aggregation is zero, the product of the two is \<^verbatim>\<open>nan\<close>, and \<open>main\<close> returns
  \<^verbatim>\<open>nan\<close>.
\<close>

theorem accuracy_nan_on_zero_in_degree:
  "main x_still a_four d_arrow =
     Inr ([EdgesLine 1 1, ParamsLine, EpochLine 3 (Finite 1) 1 (Some (1 / 1000)),
           AccuracyLine NaN], NaN)
   \<and> \<not> in_unit_interval NaN"
  using main_arrow by simp

text \<open>
  Claim C8, amended: the accuracy that \<open>main\<close> returns is \<^verbatim>\<open>nan\<close> or lies between 0 and
  1: it is a mean of softmax probabilities, each of them \<^verbatim>\<open>nan\<close> or between 0 and 1.
\<close>

theorem accuracy_nan_or_in_unit_interval:
  assumes "main x a d = Inr (out, acc)"
  shows "acc = NaN \<or> in_unit_interval acc"
proof -
  from main_returns [OF assms] obtain pred where "accuracy pred (labels d) = Inr acc"
    by blast
  then have "unit_or_nan acc" by (rule accuracy_range)
  then show ?thesis by (simp add: unit_or_nan_def)
qed

theorem accuracy_nan_or_in_unit_interval_witness:
  "main x_still a_four d_pair =
     Inr ([EdgesLine 2 1, ParamsLine, EpochLine 3 (Finite 1) 1 (Some (1 / 500)),
           AccuracyLine (Finite 1)], Finite 1)
   \<and> in_unit_interval (Finite 1)"
  using accuracy_nan_or_in_unit_interval [OF main_four] main_four by simp

subsection \<open>The normalization argument\<close>

text \<open>
  Claim C10: the value of \<^verbatim>\<open>--normalization\<close> has no influence. The constructor of the
  model receives it and builds the same layers whatever it is, so the forward output of
  the model, the loss recorded in an epoch, and the lines printed and the accuracy
  returned by \<open>main\<close> are the same for any two values.
\<close>

theorem normalization_ignored:
  "GCN_init i h c n act p nz1 = GCN_init i h c n act p nz2
   \<and> GCN_forward dropf (GCN_init i h c n act p nz1) ps g f
       = GCN_forward dropf (GCN_init i h c n act p nz2) ps g f
   \<and> recorded x d (GCN_init i h c n act p nz1) g e ps
       = recorded x d (GCN_init i h c n act p nz2) g e ps
   \<and> main x (a\<lparr>args_normalization := nz1\<rparr>) d = main x (a\<lparr>args_normalization := nz2\<rparr>) d"
  by (simp add: GCN_init_def GCN_calls_def main_def trained_def)

theorem normalization_ignored_witness:
  "main x_still (a_four\<lparr>args_normalization := Some ''sym''\<rparr>) d_pair
     = main x_still (a_four\<lparr>args_normalization := Some ''left''\<rparr>) d_pair"
  using normalization_ignored [of 1 1 1 1 None 0 "Some ''sym''" "Some ''left''" "\<lambda>i q y. y" "[]"
      g_pair "[]" x_still d_pair 0 a_four]
  by simp

end
